theory Spec2Isabelle
  imports Main
begin

section \<open>Python values, errors and arrays\<close>

text \<open>
  The module \<^verbatim>\<open>matrix_visualizer.py\<close> has one function, \<^verbatim>\<open>draw_matrix\<close>, and one
  piece of module state, \<^verbatim>\<open>_figure_cache\<close>. Every \<^verbatim>\<open>raise\<close> of the function, and
  every exception that one of its expressions raises, is a value of \<open>py_error\<close>.
\<close>

datatype py_error = TypeError | ValueError | NameError | IndexError

text \<open>
  A numpy array: its shape and, for a two-dimensional array, its rows. The function reads
  the elements of two-dimensional arrays only.
\<close>

datatype 'a ndarray = Ndarray (shape: "nat list") (content: "'a list list")

definition ndim :: "'a ndarray \<Rightarrow> nat" where
  "ndim a = length (shape a)"

text \<open>The type invariant of a two-dimensional array: the rows agree with the shape.\<close>

definition wellformed2d :: "'a ndarray \<Rightarrow> bool" where
  "wellformed2d a =
     (case shape a of
        [r, c] \<Rightarrow> length (content a) = r \<and> list_all (\<lambda>row. length row = c) (content a)
      | _ \<Rightarrow> False)"

text \<open>The argument \<^verbatim>\<open>matrix\<close>: an instance of \<^verbatim>\<open>np.ndarray\<close>, or some other object.\<close>

datatype 'a py_matrix = NotNdarray | IsNdarray "'a ndarray"

text \<open>
  The arguments \<^verbatim>\<open>grid_rows\<close> and \<^verbatim>\<open>grid_cols\<close>: \<^verbatim>\<open>None\<close>, an \<^verbatim>\<open>int\<close>, or a
  value for which \<^verbatim>\<open>isinstance(v, int)\<close> is false (a float, a string). \<open>PyInt\<close> is an
  \<^verbatim>\<open>int\<close> proper. A \<^verbatim>\<open>bool\<close>, which \<^verbatim>\<open>isinstance\<close> takes for an \<^verbatim>\<open>int\<close> and
  \<^verbatim>\<open>plt.subplots\<close> refuses with \<^verbatim>\<open>TypeError\<close>, is not among the values of this type.
\<close>

datatype py_arg = PyNone | PyInt int | PyOther

text \<open>
  The slice \<^verbatim>\<open>a[r0:r1, c0:c1]\<close> of a two-dimensional array, for bounds that are not
  negative: a bound past the end is clamped to the end.
\<close>

definition slice2 :: "'a ndarray \<Rightarrow> nat \<Rightarrow> nat \<Rightarrow> nat \<Rightarrow> nat \<Rightarrow> 'a ndarray" where
  "slice2 a r0 r1 c0 c1 =
     Ndarray
       [min r1 (shape a ! 0) - min r0 (shape a ! 0), min c1 (shape a ! 1) - min c0 (shape a ! 1)]
       (map (\<lambda>row. take (c1 - c0) (drop c0 row)) (take (r1 - r0) (drop r0 (content a))))"

text \<open>The comparison \<^verbatim>\<open>matrix > 0\<close>, element by element.\<close>

definition greater_zero :: "'a::{zero,linorder} ndarray \<Rightarrow> bool ndarray" where
  "greater_zero a = Ndarray (shape a) (map (map (\<lambda>x. 0 < x)) (content a))"

text \<open>
  \<^verbatim>\<open>np.min\<close> and \<^verbatim>\<open>np.max\<close> over all elements; numpy raises \<^verbatim>\<open>ValueError\<close> on an
  array without elements.
\<close>

definition np_min :: "'a::linorder ndarray \<Rightarrow> py_error + 'a" where
  "np_min a = (case concat (content a) of [] \<Rightarrow> Inl ValueError | x # xs \<Rightarrow> Inr (fold min xs x))"

definition np_max :: "'a::linorder ndarray \<Rightarrow> py_error + 'a" where
  "np_max a = (case concat (content a) of [] \<Rightarrow> Inl ValueError | x # xs \<Rightarrow> Inr (fold max xs x))"

text \<open>
  Indexing \<^verbatim>\<open>g[i, j]\<close> and the assignment \<^verbatim>\<open>g[i, j] = v\<close> on a two-dimensional object
  array; an index outside the array raises \<^verbatim>\<open>IndexError\<close>.
\<close>

definition index2 :: "'x list list \<Rightarrow> nat \<Rightarrow> nat \<Rightarrow> py_error + 'x" where
  "index2 g i j = (if i < length g \<and> j < length (g ! i) then Inr (g ! i ! j) else Inl IndexError)"

definition setitem2 :: "'x list list \<Rightarrow> nat \<Rightarrow> nat \<Rightarrow> 'x \<Rightarrow> 'x list list" where
  "setitem2 g i j v = g[i := (g ! i)[j := v]]"

section \<open>The display toolkit and the module state\<close>

text \<open>
  Objects live in heaps, one list per class; a reference is an index into the list of its
  class, and a new object is appended. The figure cache maps a key to the tuple
  \<^verbatim>\<open>(fig, axes, image_objects)\<close>: the figure, the grid of its axes, and the object array
  of the images, which the function mutates in place.
\<close>

type_synonym ref = nat

type_synonym figure_key = "string option \<times> int \<times> int \<times> (int \<times> int)"

type_synonym handle = "ref \<times> ref list list \<times> ref"

datatype ticks = AutoTicks | FixedTicks "int list"

record axes =
  ax_figure :: ref
  xticks :: ticks
  yticks :: ticks

text \<open>\<open>suptitle\<close> is the text of \<^verbatim>\<open>fig._suptitle\<close>, \<open>None\<close> while the figure has none.\<close>

record figure =
  number :: nat
  fig_size :: "int \<times> int"
  suptitle :: "string option"

datatype colormap = ListedColormap "string list" | NamedColormap string

datatype 'a tile = BoolTile "bool ndarray" | NumTile "'a ndarray"

record 'a image =
  im_axes :: ref
  im_data :: "'a tile"
  im_cmap :: colormap
  im_clim :: "'a \<times> 'a"

text \<open>
  \<open>open_fignums\<close> are the numbers of the figures pyplot manages, which are the windows
  that are open: \<^verbatim>\<open>plt.fignum_exists\<close> reads it, and closing a window removes its number.
\<close>

record 'a world =
  figure_cache :: "figure_key \<rightharpoonup> handle"
  open_fignums :: "nat list"
  figures :: "figure list"
  axes_objs :: "axes list"
  object_arrays :: "ref option list list list"
  images :: "'a image list"

definition initial_world :: "'a world" where
  "initial_world =
     \<lparr>figure_cache = Map.empty, open_fignums = [], figures = [], axes_objs = [],
      object_arrays = [], images = []\<rparr>"

definition fignum_exists :: "'a world \<Rightarrow> nat \<Rightarrow> bool" where
  "fignum_exists w n = (n \<in> set (open_fignums w))"

text \<open>The user closes the window of figure number \<open>n\<close> through the host UI.\<close>

definition user_closes :: "nat \<Rightarrow> 'a world \<Rightarrow> 'a world" where
  "user_closes n w = w\<lparr>open_fignums := removeAll n (open_fignums w)\<rparr>"

text \<open>
  \<^verbatim>\<open>plt.subplots(nrows, ncols, figsize=figsize)\<close> opens a new figure, numbered one past
  the largest open number, with \<open>nrows * ncols\<close> axes. With its default \<^verbatim>\<open>squeeze=True\<close>
  it returns the single axes for a 1 by 1 grid, a one-dimensional array for a single row
  or a single column, and a two-dimensional array otherwise.
\<close>

datatype subplots_axes = OneAxes ref | AxesVector "ref list" | AxesGrid "ref list list"

definition squeeze :: "nat \<Rightarrow> nat \<Rightarrow> ref list list \<Rightarrow> subplots_axes" where
  "squeeze nrows ncols g =
     (if nrows = 1 \<and> ncols = 1 then OneAxes (g ! 0 ! 0)
      else if nrows = 1 then AxesVector (g ! 0)
      else if ncols = 1 then AxesVector (map (\<lambda>row. row ! 0) g)
      else AxesGrid g)"

definition plt_subplots ::
  "nat \<Rightarrow> nat \<Rightarrow> int \<times> int \<Rightarrow> 'a world \<Rightarrow> (ref \<times> subplots_axes) \<times> 'a world" where
  "plt_subplots nrows ncols fsize w =
     (let fig = length (figures w);
          num = fold max (open_fignums w) 0 + 1;
          base = length (axes_objs w);
          g = map (\<lambda>i. map (\<lambda>j. base + i * ncols + j) [0..<ncols]) [0..<nrows]
      in ((fig, squeeze nrows ncols g),
          w\<lparr>open_fignums := open_fignums w @ [num],
            figures := figures w @ [\<lparr>number = num, fig_size = fsize, suptitle = None\<rparr>],
            axes_objs := axes_objs w
              @ replicate (nrows * ncols) \<lparr>ax_figure = fig, xticks = AutoTicks, yticks = AutoTicks\<rparr>\<rparr>))"

text \<open>\<^verbatim>\<open>np.empty((nrows, ncols), dtype=object)\<close>: a new object array, every entry \<^verbatim>\<open>None\<close>.\<close>

definition np_empty :: "nat \<Rightarrow> nat \<Rightarrow> 'a world \<Rightarrow> ref \<times> 'a world" where
  "np_empty nrows ncols w =
     (length (object_arrays w),
      w\<lparr>object_arrays := object_arrays w @ [replicate nrows (replicate ncols None)]\<rparr>)"

text \<open>
  \<^verbatim>\<open>_figure_cache\<close> is a \<^verbatim>\<open>weakref.WeakValueDictionary\<close>. Its \<^verbatim>\<open>__setitem__\<close> builds a
  weak reference to the value it is given, and Python's \<^verbatim>\<open>tuple\<close> does not support weak
  references: the store of a tuple raises \<^verbatim>\<open>TypeError\<close> and leaves the dictionary as
  it was. A figure or an array does support them.
\<close>

datatype py_type = Tuple_type | Figure_type | Ndarray_type

fun supports_weakref :: "py_type \<Rightarrow> bool" where
  "supports_weakref Tuple_type = False"
| "supports_weakref Figure_type = True"
| "supports_weakref Ndarray_type = True"

definition wvd_setitem ::
  "('k \<rightharpoonup> 'v) \<Rightarrow> 'k \<Rightarrow> py_type \<Rightarrow> 'v \<Rightarrow> py_error + ('k \<rightharpoonup> 'v)" where
  "wvd_setitem d k ty v = (if supports_weakref ty then Inr (d(k \<mapsto> v)) else Inl TypeError)"

section \<open>draw_matrix\<close>

text \<open>The parameters of \<^verbatim>\<open>draw_matrix\<close>, under their names in the source.\<close>

record 'a draw_args =
  matrix :: "'a py_matrix"
  mode :: string
  grid_rows :: py_arg
  grid_cols :: py_arg
  figsize :: "int \<times> int"
  cmap :: "string option"
  vmin :: "'a option"
  vmax :: "'a option"
  title :: "string option"

text \<open>A call that passes the matrix only: every other parameter has its default.\<close>

definition default_args :: "'a py_matrix \<Rightarrow> 'a draw_args" where
  "default_args m =
     \<lparr>matrix = m, mode = ''binary'', grid_rows = PyNone, grid_cols = PyNone, figsize = (6, 6),
      cmap = None, vmin = None, vmax = None, title = None\<rparr>"

text \<open>A \<^verbatim>\<open>for\<close> loop whose body may raise: the first exception ends the loop.\<close>

fun for_each ::
  "('x \<Rightarrow> 's \<Rightarrow> (py_error + unit) \<times> 's) \<Rightarrow> 'x list \<Rightarrow> 's \<Rightarrow> (py_error + unit) \<times> 's" where
  "for_each body [] s = (Inr (), s)"
| "for_each body (x # xs) s =
     (case body x s of (Inl e, s') \<Rightarrow> (Inl e, s') | (Inr u, s') \<Rightarrow> for_each body xs s')"

text \<open>Lines 62 to 68: \<^verbatim>\<open>None\<close> means 1; then the value must be a positive \<^verbatim>\<open>int\<close>.\<close>

definition effective_grid :: "py_arg \<Rightarrow> py_arg" where
  "effective_grid g = (case g of PyNone \<Rightarrow> PyInt 1 | _ \<Rightarrow> g)"

definition check_grid :: "py_arg \<Rightarrow> py_error + int" where
  "check_grid g =
     (case g of PyInt n \<Rightarrow> if n \<le> 0 then Inl ValueError else Inr n | _ \<Rightarrow> Inl ValueError)"

text \<open>
  Lines 53 to 80. The message of the last \<^verbatim>\<open>raise\<close> is an f-string that reads
  \<^verbatim>\<open>effective_cols\<close>, a name that is bound nowhere: evaluating the message raises
  \<^verbatim>\<open>NameError\<close>, and the \<^verbatim>\<open>ValueError\<close> is never built. The result is the array, the
  grid and the tile size.
\<close>

definition validate ::
  "'a draw_args \<Rightarrow> py_error + ('a ndarray \<times> int \<times> int \<times> int \<times> int)" where
  "validate a =
     (case matrix a of
        NotNdarray \<Rightarrow> Inl TypeError
      | IsNdarray m \<Rightarrow>
          if ndim m \<noteq> 2 then Inl TypeError
          else if mode a \<notin> set [''binary'', ''color''] then Inl ValueError
          else
            let rows = int (shape m ! 0); cols = int (shape m ! 1) in
            (case check_grid (effective_grid (grid_rows a)) of
               Inl e \<Rightarrow> Inl e
             | Inr effective_grid_rows \<Rightarrow>
                 (case check_grid (effective_grid (grid_cols a)) of
                    Inl e \<Rightarrow> Inl e
                  | Inr effective_grid_cols \<Rightarrow>
                      if rows mod effective_grid_rows \<noteq> 0 \<or> cols mod effective_grid_cols \<noteq> 0
                      then Inl NameError
                      else
                        let tile_rows = rows div effective_grid_rows;
                            tile_cols = cols div effective_grid_cols
                        in Inr (m, effective_grid_rows, effective_grid_cols, tile_rows, tile_cols))))"

text \<open>Line 85.\<close>

definition figure_key :: "string option \<Rightarrow> int \<Rightarrow> int \<Rightarrow> int \<times> int \<Rightarrow> figure_key" where
  "figure_key title' effective_grid_rows effective_grid_cols figsize' =
     (title', effective_grid_rows, effective_grid_cols, figsize')"

text \<open>
  Lines 93 to 98 turn what \<^verbatim>\<open>plt.subplots\<close> returned into a two-dimensional array:
  \<^verbatim>\<open>np.array([[axes]])\<close> for the single axes, \<^verbatim>\<open>axes[np.newaxis, :]\<close> for a single
  row, \<^verbatim>\<open>axes[:, np.newaxis]\<close> for a single column. \<^verbatim>\<open>plt.subplots\<close> returns the form
  that goes with the grid dimensions, so no other combination arises; an axes object
  cannot be indexed and an array of the wrong dimension cannot serve as the grid, and
  these combinations are errors here.
\<close>

definition reshape_axes :: "nat \<Rightarrow> nat \<Rightarrow> subplots_axes \<Rightarrow> py_error + ref list list" where
  "reshape_axes nrows ncols ax =
     (if nrows = 1 \<and> ncols = 1 then
        (case ax of OneAxes x \<Rightarrow> Inr [[x]] | _ \<Rightarrow> Inl TypeError)
      else if nrows = 1 then
        (case ax of AxesVector xs \<Rightarrow> Inr [xs] | AxesGrid g \<Rightarrow> Inl IndexError | _ \<Rightarrow> Inl TypeError)
      else if ncols = 1 then
        (case ax of AxesVector xs \<Rightarrow> Inr (map (\<lambda>x. [x]) xs) | AxesGrid g \<Rightarrow> Inl IndexError
         | _ \<Rightarrow> Inl TypeError)
      else
        (case ax of AxesGrid g \<Rightarrow> Inr g | AxesVector xs \<Rightarrow> Inl IndexError | _ \<Rightarrow> Inl TypeError))"

text \<open>Lines 108 to 110, the body of the loop over the new axes.\<close>

definition strip_ticks ::
  "ref list list \<Rightarrow> nat \<Rightarrow> nat \<Rightarrow> 'a world \<Rightarrow> (py_error + unit) \<times> 'a world" where
  "strip_ticks axs i j w =
     (case index2 axs i j of
        Inl e \<Rightarrow> (Inl e, w)
      | Inr ax \<Rightarrow>
          (Inr (),
           w\<lparr>axes_objs :=
               (axes_objs w)[ax := (axes_objs w ! ax)\<lparr>xticks := FixedTicks [], yticks := FixedTicks []\<rparr>]\<rparr>))"

text \<open>
  Lines 91 to 112, the branch that creates the figure. The store on line 103 is given the
  tuple \<^verbatim>\<open>(fig, axes, image_objects)\<close>.
\<close>

definition create_figure ::
  "figure_key \<Rightarrow> nat \<Rightarrow> nat \<Rightarrow> int \<times> int \<Rightarrow> 'a world \<Rightarrow> (py_error + handle) \<times> 'a world" where
  "create_figure key nrows ncols fsize w =
     (case plt_subplots nrows ncols fsize w of
        ((fig, sq), w1) \<Rightarrow>
          (case reshape_axes nrows ncols sq of
             Inl e \<Rightarrow> (Inl e, w1)
           | Inr axs \<Rightarrow>
               (case np_empty nrows ncols w1 of
                  (image_objects, w2) \<Rightarrow>
                    (case wvd_setitem (figure_cache w2) key Tuple_type (fig, axs, image_objects) of
                       Inl e \<Rightarrow> (Inl e, w2)
                     | Inr cache' \<Rightarrow>
                         (case for_each (\<lambda>i. for_each (\<lambda>j. strip_ticks axs i j) [0..<ncols])
                                 [0..<nrows] (w2\<lparr>figure_cache := cache'\<rparr>) of
                            (Inl e, w3) \<Rightarrow> (Inl e, w3)
                          | (Inr u, w3) \<Rightarrow> (Inr (fig, axs, image_objects), w3))))))"

text \<open>
  Lines 87 to 90: the lookup, with \<^verbatim>\<open>(None, None, None)\<close> for a key that is absent, and
  the test that sends an absent or closed figure to the creating branch.
\<close>

definition lookup_or_create ::
  "figure_key \<Rightarrow> nat \<Rightarrow> nat \<Rightarrow> int \<times> int \<Rightarrow> 'a world \<Rightarrow> (py_error + handle) \<times> 'a world" where
  "lookup_or_create key nrows ncols fsize w =
     (case figure_cache w key of
        None \<Rightarrow> create_figure key nrows ncols fsize w
      | Some (fig, axs, image_objects) \<Rightarrow>
          if \<not> fignum_exists w (number (figures w ! fig))
          then create_figure key nrows ncols fsize w
          else (Inr (fig, axs, image_objects), w))"

text \<open>
  Lines 124 to 134 and 144 to 154, the body of the loop over the tiles. The two modes run
  the same body; they differ in the data, the palette and the range they give it. The
  palette \<open>cm\<close> is a palette object: the listed palette of mode binary, or the palette
  that a name of mode color resolves to.
\<close>

definition draw_tile ::
  "ref list list \<Rightarrow> ref \<Rightarrow> (nat \<Rightarrow> nat \<Rightarrow> 'a tile) \<Rightarrow> colormap \<Rightarrow> 'a \<Rightarrow> 'a \<Rightarrow> nat \<Rightarrow> nat \<Rightarrow> 'a world
     \<Rightarrow> (py_error + unit) \<times> 'a world" where
  "draw_tile axs image_objects tile_of cm plot_vmin plot_vmax i j w =
     (case index2 axs i j of
        Inl e \<Rightarrow> (Inl e, w)
      | Inr ax \<Rightarrow>
          let tile_data = tile_of i j in
          (case index2 (object_arrays w ! image_objects) i j of
             Inl e \<Rightarrow> (Inl e, w)
           | Inr None \<Rightarrow>
               let im = length (images w) in
               (Inr (),
                w\<lparr>images := images w
                    @ [\<lparr>im_axes = ax, im_data = tile_data, im_cmap = cm,
                        im_clim = (plot_vmin, plot_vmax)\<rparr>],
                  object_arrays := (object_arrays w)
                    [image_objects := setitem2 (object_arrays w ! image_objects) i j (Some im)]\<rparr>)
           | Inr (Some im) \<Rightarrow>
               (Inr (),
                w\<lparr>images := (images w)
                    [im := (images w ! im)\<lparr>im_data := tile_data, im_cmap := cm,
                                           im_clim := (plot_vmin, plot_vmax)\<rparr>]\<rparr>)))"

text \<open>Lines 125 and 145: the slice that is the tile at grid position \<open>(i, j)\<close>.\<close>

definition tile_slice :: "'b ndarray \<Rightarrow> nat \<Rightarrow> nat \<Rightarrow> nat \<Rightarrow> nat \<Rightarrow> 'b ndarray" where
  "tile_slice m tile_rows tile_cols i j =
     slice2 m (i * tile_rows) ((i + 1) * tile_rows) (j * tile_cols) ((j + 1) * tile_cols)"

text \<open>
  Lines 115 to 154. In mode color the loops hand \<^verbatim>\<open>imshow\<close> and \<^verbatim>\<open>set_cmap\<close> the name
  \<^verbatim>\<open>plot_cmap\<close>, which matplotlib looks up in its registry of palettes; for a name that
  is not there they raise \<^verbatim>\<open>ValueError\<close>. The registry is not part of the state kept
  here: \<open>NamedColormap plot_cmap\<close> is the palette of a name that resolves, as viridis
  does, and the lemma on the loops of mode color is stated for viridis.
\<close>

definition render_tiles ::
  "'a::{zero,one,linorder} draw_args \<Rightarrow> 'a ndarray \<Rightarrow> handle \<Rightarrow> nat \<Rightarrow> nat \<Rightarrow> nat \<Rightarrow> nat \<Rightarrow> 'a world
     \<Rightarrow> (py_error + unit) \<times> 'a world" where
  "render_tiles a m h nrows ncols tile_rows tile_cols w =
     (case h of (fig, axs, image_objects) \<Rightarrow>
        if mode a = ''binary'' then
          let binary_matrix = greater_zero m;
              binary_cmap = ListedColormap [''black'', ''white''];
              plot_vmin = 0; plot_vmax = 1
          in for_each
               (\<lambda>i. for_each
                  (\<lambda>j. draw_tile axs image_objects
                     (\<lambda>i j. BoolTile (tile_slice binary_matrix tile_rows tile_cols i j))
                     binary_cmap plot_vmin plot_vmax i j)
                  [0..<ncols])
               [0..<nrows] w
        else if mode a = ''color'' then
          (case (case vmin a of Some v \<Rightarrow> Inr v | None \<Rightarrow> np_min m) of
             Inl e \<Rightarrow> (Inl e, w)
           | Inr plot_vmin \<Rightarrow>
               (case (case vmax a of Some v \<Rightarrow> Inr v | None \<Rightarrow> np_max m) of
                  Inl e \<Rightarrow> (Inl e, w)
                | Inr plot_vmax \<Rightarrow>
                    let plot_cmap = (case cmap a of Some c \<Rightarrow> c | None \<Rightarrow> ''viridis'') in
                    for_each
                      (\<lambda>i. for_each
                         (\<lambda>j. draw_tile axs image_objects
                            (\<lambda>i j. NumTile (tile_slice m tile_rows tile_cols i j))
                            (NamedColormap plot_cmap) plot_vmin plot_vmax i j)
                         [0..<ncols])
                      [0..<nrows] w))
        else (Inr (), w))"

text \<open>
  Lines 157 to 162. \<^verbatim>\<open>if title:\<close> is false for \<^verbatim>\<open>None\<close> and for the empty string;
  \<^verbatim>\<open>if fig._suptitle:\<close> is true for every text object.
\<close>

definition truthy :: "string option \<Rightarrow> bool" where
  "truthy t = (case t of None \<Rightarrow> False | Some s \<Rightarrow> s \<noteq> [])"

definition final_adjustments :: "string option \<Rightarrow> ref \<Rightarrow> 'a world \<Rightarrow> 'a world" where
  "final_adjustments title' fig w =
     (if truthy title' then w\<lparr>figures := (figures w)[fig := (figures w ! fig)\<lparr>suptitle := title'\<rparr>]\<rparr>
      else
        (case suptitle (figures w ! fig) of
           None \<Rightarrow> w
         | Some old \<Rightarrow> w\<lparr>figures := (figures w)[fig := (figures w ! fig)\<lparr>suptitle := Some []\<rparr>]\<rparr>))"

text \<open>
  The function, lines 53 to 172. It returns nothing: the result is \<open>Inr ()\<close> or the
  exception. Lines 165 to 172 (layout, canvas drawing, event flushing, the pause) change
  none of the state kept here. Drawing the canvas on line 168 raises \<^verbatim>\<open>ValueError\<close> for
  an image whose range has its lower bound above its upper bound; what the toolkit does
  while it draws is not modelled, so the result \<open>Inr ()\<close> stands for a call that has come
  to line 165. No theorem below states that a call returns: a call of a process ends at
  line 103 or before, and the lemmas on the loops and on the heading are about lines 115
  to 162.
\<close>

definition draw_matrix ::
  "'a::{zero,one,linorder} draw_args \<Rightarrow> 'a world \<Rightarrow> (py_error + unit) \<times> 'a world" where
  "draw_matrix a w =
     (case validate a of
        Inl e \<Rightarrow> (Inl e, w)
      | Inr (m, effective_grid_rows, effective_grid_cols, tile_rows, tile_cols) \<Rightarrow>
          let key = figure_key (title a) effective_grid_rows effective_grid_cols (figsize a) in
          (case lookup_or_create key (nat effective_grid_rows) (nat effective_grid_cols)
                  (figsize a) w of
             (Inl e, w1) \<Rightarrow> (Inl e, w1)
           | (Inr (fig, axs, image_objects), w1) \<Rightarrow>
               (case render_tiles a m (fig, axs, image_objects) (nat effective_grid_rows)
                       (nat effective_grid_cols) (nat tile_rows) (nat tile_cols) w1 of
                  (Inl e, w2) \<Rightarrow> (Inl e, w2)
                | (Inr u, w2) \<Rightarrow> (Inr (), final_adjustments (title a) fig w2))))"

section \<open>Vocabulary for the statements\<close>

text \<open>
  What the interface calls a valid input, stated on the arguments alone: a two-dimensional
  array, one of the two modes, grid dimensions that are absent (then 1) or positive
  integers, and matrix dimensions that the grid dimensions divide.
\<close>

definition grid_value :: "py_arg \<Rightarrow> int option" where
  "grid_value g = (case g of PyNone \<Rightarrow> Some 1 | PyInt n \<Rightarrow> Some n | PyOther \<Rightarrow> None)"

definition valid_input :: "'a draw_args \<Rightarrow> bool" where
  "valid_input a =
     (case (matrix a, grid_value (grid_rows a), grid_value (grid_cols a)) of
        (IsNdarray m, Some gr, Some gc) \<Rightarrow>
          ndim m = 2 \<and> (mode a = ''binary'' \<or> mode a = ''color'') \<and> 0 < gr \<and> 0 < gc
          \<and> int (shape m ! 0) mod gr = 0 \<and> int (shape m ! 1) mod gc = 0
      | _ \<Rightarrow> False)"

text \<open>The configuration key of a call, and whether the cache holds an open figure for a key.\<close>

definition call_key :: "'a draw_args \<Rightarrow> figure_key" where
  "call_key a =
     figure_key (title a) (the (grid_value (grid_rows a))) (the (grid_value (grid_cols a)))
       (figsize a)"

definition cached_and_open :: "'a world \<Rightarrow> figure_key \<Rightarrow> bool" where
  "cached_and_open w k =
     (case figure_cache w k of
        None \<Rightarrow> False
      | Some (fig, axs, image_objects) \<Rightarrow> fignum_exists w (number (figures w ! fig)))"

text \<open>
  The grid of tiles that the two loops go through, and the positions of the matrix that
  the slice at grid position \<open>(i, j)\<close> reads.
\<close>

definition tiles :: "'b ndarray \<Rightarrow> nat \<Rightarrow> nat \<Rightarrow> nat \<Rightarrow> nat \<Rightarrow> 'b ndarray list list" where
  "tiles m nrows ncols tile_rows tile_cols =
     map (\<lambda>i. map (\<lambda>j. tile_slice m tile_rows tile_cols i j) [0..<ncols]) [0..<nrows]"

definition tile_cells :: "nat \<Rightarrow> nat \<Rightarrow> nat \<Rightarrow> nat \<Rightarrow> (nat \<times> nat) set" where
  "tile_cells tile_rows tile_cols i j =
     {i * tile_rows..<(i + 1) * tile_rows} \<times> {j * tile_cols..<(j + 1) * tile_cols}"

text \<open>
  Putting a grid of tiles together again: the tiles of one grid row side by side, and the
  grid rows one below the other.
\<close>

definition hstack :: "'b ndarray list \<Rightarrow> 'b list list" where
  "hstack ts =
     (case ts of
        [] \<Rightarrow> []
      | t # rest \<Rightarrow> map (\<lambda>r. concat (map (\<lambda>t'. content t' ! r) ts)) [0..<length (content t)])"

definition assemble :: "'b ndarray list list \<Rightarrow> 'b list list" where
  "assemble tss = concat (map hstack tss)"

text \<open>
  The invariant of a handle for a grid of \<open>nrows\<close> by \<open>ncols\<close>: its references point into
  the heaps, the axes and the image array are grids of that shape, and every image the
  array refers to exists and belongs to one cell only.
\<close>

definition grid_shaped :: "'x list list \<Rightarrow> nat \<Rightarrow> nat \<Rightarrow> bool" where
  "grid_shaped g nrows ncols = (length g = nrows \<and> list_all (\<lambda>row. length row = ncols) g)"

definition cell_ref :: "'a world \<Rightarrow> ref \<Rightarrow> nat \<Rightarrow> nat \<Rightarrow> ref option" where
  "cell_ref w image_objects i j = object_arrays w ! image_objects ! i ! j"

definition handle_ok :: "'a world \<Rightarrow> handle \<Rightarrow> nat \<Rightarrow> nat \<Rightarrow> bool" where
  "handle_ok w h nrows ncols =
     (case h of (fig, axs, image_objects) \<Rightarrow>
        fig < length (figures w) \<and> grid_shaped axs nrows ncols
        \<and> image_objects < length (object_arrays w)
        \<and> grid_shaped (object_arrays w ! image_objects) nrows ncols
        \<and> (\<forall>i<nrows. \<forall>j<ncols.
              case cell_ref w image_objects i j of
                None \<Rightarrow> True
              | Some k \<Rightarrow>
                  k < length (images w)
                  \<and> (\<forall>i'<nrows. \<forall>j'<ncols.
                        cell_ref w image_objects i' j' = Some k \<longrightarrow> i' = i \<and> j' = j)))"

text \<open>The cell \<open>(i, j)\<close> of an image array holds an image with this data, palette and range.\<close>

definition cell_shows ::
  "'a world \<Rightarrow> ref \<Rightarrow> nat \<Rightarrow> nat \<Rightarrow> 'a tile \<Rightarrow> colormap \<Rightarrow> 'a \<times> 'a \<Rightarrow> bool" where
  "cell_shows w image_objects i j d cm clim =
     (case cell_ref w image_objects i j of
        None \<Rightarrow> False
      | Some k \<Rightarrow>
          k < length (images w) \<and> im_data (images w ! k) = d \<and> im_cmap (images w ! k) = cm
          \<and> im_clim (images w ! k) = clim)"

text \<open>
  The colour of a pixel of a boolean image under a listed palette with the range 0 to 1,
  as the comment on line 118 has it: \<^verbatim>\<open>False\<close> is the value 0 and takes the first
  entry, \<^verbatim>\<open>True\<close> is the value 1 and takes the last.
\<close>

definition rendered_colour :: "'a::{zero,one} image \<Rightarrow> nat \<Rightarrow> nat \<Rightarrow> string option" where
  "rendered_colour im r c =
     (case (im_data im, im_cmap im) of
        (BoolTile t, ListedColormap (c0 # cs)) \<Rightarrow>
          if im_clim im = (0, 1) then Some (if content t ! r ! c then last (c0 # cs) else c0)
          else None
      | _ \<Rightarrow> None)"

text \<open>The colour shown at pixel \<open>(r, c)\<close> of the image in cell \<open>(i, j)\<close> of an image array.\<close>

definition pixel ::
  "'a::{zero,one} world \<Rightarrow> ref \<Rightarrow> nat \<Rightarrow> nat \<Rightarrow> nat \<Rightarrow> nat \<Rightarrow> string option" where
  "pixel w image_objects i j r c =
     (case cell_ref w image_objects i j of
        None \<Rightarrow> None
      | Some k \<Rightarrow> rendered_colour (images w ! k) r c)"

text \<open>
  The states a process can be in: the module is loaded with an empty cache and no figure,
  and then calls of \<^verbatim>\<open>draw_matrix\<close> and windows closed by the user follow one another.
\<close>

inductive reachable :: "'a::{zero,one,linorder} world \<Rightarrow> bool" where
  start: "reachable initial_world"
| call: "reachable w \<Longrightarrow> reachable (snd (draw_matrix a w))"
| close: "reachable w \<Longrightarrow> reachable (user_closes n w)"

section \<open>Example inputs\<close>

text \<open>A matrix of 4 rows and 6 columns, and a call that tiles it in a grid of 2 by 3.\<close>

definition example_matrix :: "int ndarray" where
  "example_matrix =
     Ndarray [4, 6]
       [[1, -2, 3, 0, -4, 5],
        [0, 6, -7, 8, 9, -10],
        [-11, 12, 13, -14, -16, 17],
        [18, 0, -20, 21, 0, 23]]"

definition example_call :: "int draw_args" where
  "example_call = (default_args (IsNdarray example_matrix))\<lparr>grid_rows := PyInt 2, grid_cols := PyInt 3\<rparr>"

definition example_color_call :: "int draw_args" where
  "example_color_call = example_call\<lparr>mode := ''color''\<rparr>"

text \<open>
  The state of a first call of \<open>example_call\<close> when it has run lines 91 to 100: a new
  figure with its six axes, and a new image array without images.
\<close>

definition fresh_world :: "int world" where
  "fresh_world = snd (np_empty 2 3 (snd (plt_subplots 2 3 (6, 6) initial_world)))"

text \<open>A matrix without an element above 0, and a call that shows it in mode binary.\<close>

definition dark_matrix :: "int ndarray" where
  "dark_matrix = Ndarray [2, 2] [[0, -1], [-2, -3]]"

definition dark_call :: "int draw_args" where
  "dark_call = default_args (IsNdarray dark_matrix)"

text \<open>
  A matrix of one element, a call that gives it the title A and a call that gives it no
  title; and a state in which the cache holds an open figure for the key of either call.
\<close>

definition unit_matrix :: "int ndarray" where
  "unit_matrix = Ndarray [1, 1] [[1]]"

definition titled_call :: "int draw_args" where
  "titled_call = (default_args (IsNdarray unit_matrix))\<lparr>title := Some ''A''\<rparr>"

definition untitled_call :: "int draw_args" where
  "untitled_call = default_args (IsNdarray unit_matrix)"

definition two_figure_world :: "int world" where
  "two_figure_world =
     \<lparr>figure_cache =
        [(Some ''A'', 1, 1, (6, 6)) \<mapsto> (0, [[0]], 0), (None, 1, 1, (6, 6)) \<mapsto> (1, [[1]], 1)],
      open_fignums = [1, 2],
      figures =
        [\<lparr>number = 1, fig_size = (6, 6), suptitle = None\<rparr>,
         \<lparr>number = 2, fig_size = (6, 6), suptitle = None\<rparr>],
      axes_objs =
        [\<lparr>ax_figure = 0, xticks = FixedTicks [], yticks = FixedTicks []\<rparr>,
         \<lparr>ax_figure = 1, xticks = FixedTicks [], yticks = FixedTicks []\<rparr>],
      object_arrays = [[[None]], [[None]]],
      images = []\<rparr>"


section \<open>Validation\<close>

lemma validate_unchanged:
  "validate a = Inl e \<Longrightarrow> draw_matrix a w = (Inl e, w)"
  by (simp add: draw_matrix_def)

lemma validate_invalid:
  "\<not> valid_input a \<Longrightarrow> \<exists>e. validate a = Inl e"
  by (auto simp: valid_input_def validate_def grid_value_def check_grid_def effective_grid_def
      Let_def split: py_matrix.splits py_arg.splits if_splits)

lemma validate_valid:
  assumes "valid_input a"
  shows "\<exists>m gr gc. matrix a = IsNdarray m \<and> grid_value (grid_rows a) = Some gr
           \<and> grid_value (grid_cols a) = Some gc \<and> 0 < gr \<and> 0 < gc
           \<and> validate a = Inr (m, gr, gc, int (shape m ! 0) div gr, int (shape m ! 1) div gc)"
  using assms
  by (auto simp: valid_input_def validate_def grid_value_def check_grid_def effective_grid_def
      Let_def split: py_matrix.splits py_arg.splits option.splits if_splits)

text \<open>
  C6. An invalid input (an input that is not a two-dimensional array, a mode other than
  binary and color, a grid dimension that is not a positive integer, or grid dimensions
  that do not divide the matrix dimensions) makes the call raise, and the whole state (the
  figure cache, the open figures, every figure, axes, array and image) is what it was
  before the call.
\<close>

theorem invalid_input_raises_without_effect:
  "\<not> valid_input a \<Longrightarrow> \<exists>e. draw_matrix a w = (Inl e, w)"
  using validate_invalid [of a] validate_unchanged [of a _ w] by blast

theorem invalid_input_raises_without_effect_witness:
  "\<not> valid_input (default_args NotNdarray :: int draw_args)
   \<and> (\<exists>e. draw_matrix (default_args NotNdarray) (initial_world :: int world)
          = (Inl e, initial_world))
   \<and> \<not> valid_input (default_args (IsNdarray (Ndarray [3] [[1, 2, 3 :: int]])))
   \<and> (\<exists>e. draw_matrix (default_args (IsNdarray (Ndarray [3] [[1, 2, 3 :: int]]))) initial_world
          = (Inl e, initial_world))
   \<and> \<not> valid_input
         ((default_args (IsNdarray (Ndarray [1, 2] [[1, 2 :: int]])))\<lparr>mode := ''grayscale''\<rparr>)
   \<and> (\<exists>e. draw_matrix
            ((default_args (IsNdarray (Ndarray [1, 2] [[1, 2 :: int]])))\<lparr>mode := ''grayscale''\<rparr>)
            initial_world = (Inl e, initial_world))
   \<and> \<not> valid_input
         ((default_args (IsNdarray (Ndarray [1, 2] [[1, 2 :: int]])))\<lparr>grid_rows := PyInt 0\<rparr>)
   \<and> (\<exists>e. draw_matrix
            ((default_args (IsNdarray (Ndarray [1, 2] [[1, 2 :: int]])))\<lparr>grid_rows := PyInt 0\<rparr>)
            initial_world = (Inl e, initial_world))
   \<and> \<not> valid_input
         ((default_args (IsNdarray (Ndarray [1, 2] [[1, 2 :: int]])))\<lparr>grid_cols := PyOther\<rparr>)
   \<and> (\<exists>e. draw_matrix
            ((default_args (IsNdarray (Ndarray [1, 2] [[1, 2 :: int]])))\<lparr>grid_cols := PyOther\<rparr>)
            initial_world = (Inl e, initial_world))
   \<and> \<not> valid_input
         ((default_args (IsNdarray (Ndarray [10, 10] (replicate 10 (replicate 10 (0 :: int))))))
            \<lparr>grid_rows := PyInt 3\<rparr>)
   \<and> (\<exists>e. draw_matrix
            ((default_args (IsNdarray (Ndarray [10, 10] (replicate 10 (replicate 10 (0 :: int))))))
               \<lparr>grid_rows := PyInt 3\<rparr>)
            two_figure_world = (Inl e, two_figure_world))"
proof -
  have 1: "\<not> valid_input (default_args NotNdarray :: int draw_args)"
    by (simp add: valid_input_def default_args_def)
  have 2: "\<not> valid_input (default_args (IsNdarray (Ndarray [3] [[1, 2, 3 :: int]])))"
    by (simp add: valid_input_def default_args_def grid_value_def ndim_def)
  have 3: "\<not> valid_input
         ((default_args (IsNdarray (Ndarray [1, 2] [[1, 2 :: int]])))\<lparr>mode := ''grayscale''\<rparr>)"
    by (simp add: valid_input_def default_args_def grid_value_def ndim_def)
  have 4: "\<not> valid_input
         ((default_args (IsNdarray (Ndarray [1, 2] [[1, 2 :: int]])))\<lparr>grid_rows := PyInt 0\<rparr>)"
    by (simp add: valid_input_def default_args_def grid_value_def ndim_def)
  have 5: "\<not> valid_input
         ((default_args (IsNdarray (Ndarray [1, 2] [[1, 2 :: int]])))\<lparr>grid_cols := PyOther\<rparr>)"
    by (simp add: valid_input_def default_args_def grid_value_def ndim_def)
  have 6: "\<not> valid_input
         ((default_args (IsNdarray (Ndarray [10, 10] (replicate 10 (replicate 10 (0 :: int))))))
            \<lparr>grid_rows := PyInt 3\<rparr>)"
    by (simp add: valid_input_def default_args_def grid_value_def ndim_def)
  show ?thesis
    using 1 2 3 4 5 6
      invalid_input_raises_without_effect [OF 1, of initial_world]
      invalid_input_raises_without_effect [OF 2, of initial_world]
      invalid_input_raises_without_effect [OF 3, of initial_world]
      invalid_input_raises_without_effect [OF 4, of initial_world]
      invalid_input_raises_without_effect [OF 5, of initial_world]
      invalid_input_raises_without_effect [OF 6, of two_figure_world]
    by blast
qed

text \<open>
  C5. When the grid dimensions do not divide the matrix dimensions the call is rejected
  and nothing is truncated or padded, but the exception is not the \<^verbatim>\<open>ValueError\<close> with
  the descriptive message: building the message raises \<^verbatim>\<open>NameError\<close>.
\<close>

theorem nondividing_grid_raises_NameError:
  assumes "matrix a = IsNdarray m" and "ndim m = 2"
    and "mode a = ''binary'' \<or> mode a = ''color''"
    and "grid_value (grid_rows a) = Some gr" and "grid_value (grid_cols a) = Some gc"
    and "0 < gr" and "0 < gc"
    and "int (shape m ! 0) mod gr \<noteq> 0 \<or> int (shape m ! 1) mod gc \<noteq> 0"
  shows "draw_matrix a w = (Inl NameError, w)"
proof -
  have "validate a = Inl NameError"
    using assms
    by (auto simp: validate_def grid_value_def check_grid_def effective_grid_def Let_def
        split: py_arg.splits)
  then show ?thesis by (rule validate_unchanged)
qed

theorem nondividing_grid_raises_NameError_witness:
  "draw_matrix
     ((default_args (IsNdarray (Ndarray [10, 10] (replicate 10 (replicate 10 (0 :: int))))))
        \<lparr>grid_rows := PyInt 3\<rparr>)
     initial_world = (Inl NameError, initial_world)"
  by (rule nondividing_grid_raises_NameError
      [where gr = 3 and gc = 1 and m = "Ndarray [10, 10] (replicate 10 (replicate 10 0))"])
    (simp_all add: default_args_def grid_value_def ndim_def)

section \<open>The creating branch\<close>



text \<open>Lines 93 to 98 give back the grid that \<^verbatim>\<open>plt.subplots\<close> squeezed.\<close>

lemma reshape_squeeze:
  assumes "0 < n" and "0 < k" and "length g = n" and "list_all (\<lambda>row. length row = k) g"
  shows "reshape_axes n k (squeeze n k g) = Inr g"
proof -
  have rows: "\<And>i. i < n \<Longrightarrow> length (g ! i) = k"
    using assms by (simp add: list_all_length)
  show ?thesis
  proof (cases "n = 1")
    case True
    then obtain r where g: "g = [r]" using assms(3) by (auto simp: length_Suc_conv)
    show ?thesis
    proof (cases "k = 1")
      case k1: True
      then obtain x where "r = [x]" using rows [of 0] True g by (auto simp: length_Suc_conv)
      then show ?thesis using True k1 g by (simp add: reshape_axes_def squeeze_def)
    next
      case False
      then show ?thesis using True g by (simp add: reshape_axes_def squeeze_def)
    qed
  next
    case False
    show ?thesis
    proof (cases "k = 1")
      case True
      have "map (\<lambda>x. [x]) (map (\<lambda>row. row ! 0) g) = g"
      proof (rule nth_equalityI)
        show "length (map (\<lambda>x. [x]) (map (\<lambda>row. row ! 0) g)) = length g" by simp
      next
        fix i assume "i < length (map (\<lambda>x. [x]) (map (\<lambda>row. row ! 0) g))"
        then have i: "i < n" using assms(3) by simp
        then obtain x where "g ! i = [x]" using rows [of i] True by (auto simp: length_Suc_conv)
        then show "map (\<lambda>x. [x]) (map (\<lambda>row. row ! 0) g) ! i = g ! i"
          using i assms(3) by simp
      qed
      then show ?thesis using False True by (simp add: reshape_axes_def squeeze_def)
    next
      case k: False
      then show ?thesis using False by (simp add: reshape_axes_def squeeze_def)
    qed
  qed
qed

lemma subplots_grid:
  "list_all (\<lambda>row. length row = k) (map (\<lambda>i. map (\<lambda>j. b + i * k + j) [0..<k]) [0..<n])"
  by (simp add: list_all_iff)

text \<open>The creating branch never gets past the store on line 103.\<close>

lemma create_figure_raises:
  assumes "0 < n" and "0 < k"
  shows "create_figure key n k fs w
         = (Inl TypeError, snd (np_empty n k (snd (plt_subplots n k fs w))))"
  using assms
    reshape_squeeze [OF assms,
      of "map (\<lambda>i. map (\<lambda>j. length (axes_objs w) + i * k + j) [0..<k]) [0..<n]"]
  by (simp add: create_figure_def plt_subplots_def Let_def np_empty_def wvd_setitem_def
      subplots_grid)

lemma lookup_miss:
  "\<not> cached_and_open w key \<Longrightarrow> lookup_or_create key n k fs w = create_figure key n k fs w"
  by (auto simp: lookup_or_create_def cached_and_open_def split: option.splits)

text \<open>
  A valid call that does not find an open figure under its key runs the creating branch,
  and so ends at the store: the state it leaves is the state after \<^verbatim>\<open>plt.subplots\<close> and
  \<^verbatim>\<open>np.empty\<close>.
\<close>

lemma draw_matrix_store_raises:
  assumes "valid_input a" and "\<not> cached_and_open w (call_key a)"
  shows "draw_matrix a w
         = (Inl TypeError,
            snd (np_empty (nat (the (grid_value (grid_rows a)))) (nat (the (grid_value (grid_cols a))))
                  (snd (plt_subplots (nat (the (grid_value (grid_rows a))))
                          (nat (the (grid_value (grid_cols a)))) (figsize a) w))))"
proof -
  obtain m gr gc where v: "grid_value (grid_rows a) = Some gr" "grid_value (grid_cols a) = Some gc"
    "0 < gr" "0 < gc"
    "validate a = Inr (m, gr, gc, int (shape m ! 0) div gr, int (shape m ! 1) div gc)"
    using validate_valid [OF assms(1)] by blast
  have key: "figure_key (title a) gr gc (figsize a) = call_key a"
    using v by (simp add: call_key_def)
  have pos: "0 < nat gr" "0 < nat gc" using v by simp_all
  show ?thesis
    using v assms(2)
    by (simp add: draw_matrix_def key lookup_miss create_figure_raises [OF pos])
qed

lemma failed_creation_state:
  fixes w :: "'a world" and n k :: nat and fs :: "int \<times> int"
  defines "w' \<equiv> snd (np_empty n k (snd (plt_subplots n k fs w)))"
  shows "figure_cache w' = figure_cache w" and "images w' = images w"
    and "figures w' = figures w
           @ [\<lparr>number = fold max (open_fignums w) 0 + 1, fig_size = fs, suptitle = None\<rparr>]"
    and "open_fignums w' = open_fignums w @ [fold max (open_fignums w) 0 + 1]"
  by (simp_all add: w'_def np_empty_def plt_subplots_def Let_def)



section \<open>Tiling\<close>

lemma concat_chunks_take:
  "n * k \<le> length xs \<Longrightarrow> concat (map (\<lambda>i. take k (drop (i * k) xs)) [0..<n]) = take (n * k) xs"
proof (induction n)
  case 0
  then show ?case by simp
next
  case (Suc n)
  then have "concat (map (\<lambda>i. take k (drop (i * k) xs)) [0..<n]) = take (n * k) xs" by simp
  moreover have "take (Suc n * k) xs = take (n * k) xs @ take k (drop (n * k) xs)"
    using take_add [of "n * k" k xs] by (simp add: add.commute)
  ultimately show ?case by simp
qed

lemma concat_chunks:
  "length xs = n * k \<Longrightarrow> concat (map (\<lambda>i. take k (drop (i * k) xs)) [0..<n]) = xs"
  using concat_chunks_take [of n k xs] by simp

lemma tile_slice_content:
  "content (tile_slice m tr tc i j)
   = map (\<lambda>row. take tc (drop (j * tc) row)) (take tr (drop (i * tr) (content m)))"
  by (simp add: tile_slice_def slice2_def)

lemma tile_slice_shape:
  assumes "shape m = [gr * tr, gc * tc]" and "i < gr" and "j < gc"
  shows "shape (tile_slice m tr tc i j) = [tr, tc]"
proof -
  have a: "tr + i * tr \<le> gr * tr"
    using assms(2) by (metis Suc_leI mult_Suc mult_le_mono1)
  have b: "tc + j * tc \<le> gc * tc"
    using assms(3) by (metis Suc_leI mult_Suc mult_le_mono1)
  have a': "i * tr \<le> gr * tr" using assms(2) by simp
  have b': "j * tc \<le> gc * tc" using assms(3) by simp
  show ?thesis
    using a b a' b' by (simp add: tile_slice_def slice2_def assms(1) min_def)
qed


lemma wellformed2d_rows:
  assumes "wellformed2d m" and "shape m = [R, C]"
  shows "length (content m) = R" and "\<And>r. r < R \<Longrightarrow> length (content m ! r) = C"
  using assms by (simp_all add: wellformed2d_def list_all_length)

lemma mult_bound: "(i::nat) < g \<Longrightarrow> r < t \<Longrightarrow> i * t + r < g * t"
proof -
  assume "i < g" "r < t"
  then have "i * t + r < i * t + t" by simp
  also have "\<dots> = Suc i * t" by simp
  also have "\<dots> \<le> g * t" using \<open>i < g\<close> by (metis Suc_leI mult_le_mono1)
  finally show ?thesis .
qed

lemma tile_slice_length:
  assumes "wellformed2d m" and "shape m = [gr * tr, gc * tc]" and "i < gr" and "j < gc"
  shows "length (content (tile_slice m tr tc i j)) = tr"
proof -
  have "Suc i * tr \<le> gr * tr" using assms(3) by (metis Suc_leI mult_le_mono1)
  then have "tr \<le> gr * tr - i * tr" by simp
  then show ?thesis
    using wellformed2d_rows(1) [OF assms(1,2)] by (simp add: tile_slice_content)
qed

lemma tile_slice_row:
  assumes "wellformed2d m" and "shape m = [gr * tr, gc * tc]" and "i < gr" and "j < gc"
    and "r < tr"
  shows "content (tile_slice m tr tc i j) ! r = take tc (drop (j * tc) (content m ! (i * tr + r)))"
proof -
  have len: "length (content m) = gr * tr" by (rule wellformed2d_rows(1) [OF assms(1,2)])
  have "i * tr + r < gr * tr" using assms(3,5) by (rule mult_bound)
  moreover have "i * tr \<le> gr * tr" using assms(3) by simp
  ultimately show ?thesis using assms(3,5) len by (simp add: tile_slice_content)
qed

lemma tile_slice_nth:
  assumes "wellformed2d m" and "shape m = [gr * tr, gc * tc]" and "i < gr" and "j < gc"
    and "r < tr" and "c < tc"
  shows "content (tile_slice m tr tc i j) ! r ! c = content m ! (i * tr + r) ! (j * tc + c)"
proof -
  have "i * tr + r < gr * tr" using assms(3,5) by (rule mult_bound)
  then have len: "length (content m ! (i * tr + r)) = gc * tc"
    by (rule wellformed2d_rows(2) [OF assms(1,2)])
  have "j * tc + c < gc * tc" using assms(4,6) by (rule mult_bound)
  moreover have "j * tc \<le> gc * tc" using assms(4) by simp
  ultimately show ?thesis
    using assms(4,6) len by (simp add: tile_slice_row [OF assms(1-5)])
qed

lemma tile_slice_wellformed:
  assumes "wellformed2d m" and "shape m = [gr * tr, gc * tc]" and "i < gr" and "j < gc"
  shows "wellformed2d (tile_slice m tr tc i j)"
proof -
  have "length (content (tile_slice m tr tc i j) ! r) = tc" if "r < tr" for r
  proof -
    have "i * tr + r < gr * tr" using assms(3) that by (rule mult_bound)
    then have len: "length (content m ! (i * tr + r)) = gc * tc"
      by (rule wellformed2d_rows(2) [OF assms(1,2)])
    have "Suc j * tc \<le> gc * tc" using assms(4) by (metis Suc_leI mult_le_mono1)
    then have "tc \<le> gc * tc - j * tc" by simp
    then show ?thesis using len by (simp add: tile_slice_row [OF assms that])
  qed
  then show ?thesis
    using tile_slice_length [OF assms] tile_slice_shape [OF assms(2-4)]
    by (simp add: wellformed2d_def list_all_length)
qed

lemma hstack_tiles:
  assumes "wellformed2d m" and "shape m = [gr * tr, gc * tc]" and "i < gr" and "0 < gc"
  shows "hstack (map (\<lambda>j. tile_slice m tr tc i j) [0..<gc]) = take tr (drop (i * tr) (content m))"
proof -
  have len: "length (content m) = gr * tr" by (rule wellformed2d_rows(1) [OF assms(1,2)])
  have "Suc i * tr \<le> gr * tr" using assms(3) by (metis Suc_leI mult_le_mono1)
  then have le: "tr \<le> gr * tr - i * tr" by simp
  have ne: "[0..<gc] = 0 # [1..<gc]" using assms(4) by (simp add: upt_conv_Cons)
  have h: "hstack (map (\<lambda>j. tile_slice m tr tc i j) [0..<gc])
           = map (\<lambda>r. concat (map (\<lambda>j. content (tile_slice m tr tc i j) ! r) [0..<gc])) [0..<tr]"
    using tile_slice_length [OF assms(1-3), of 0] assms(4)
    by (simp add: hstack_def ne o_def del: upt_Suc)
  show ?thesis
  proof (rule nth_equalityI)
    show "length (hstack (map (\<lambda>j. tile_slice m tr tc i j) [0..<gc]))
          = length (take tr (drop (i * tr) (content m)))"
      using le len by (simp add: h)
  next
    fix r assume "r < length (hstack (map (\<lambda>j. tile_slice m tr tc i j) [0..<gc]))"
    then have r: "r < tr" by (simp add: h)
    have "i * tr + r < gr * tr" using assms(3) r by (rule mult_bound)
    then have rowlen: "length (content m ! (i * tr + r)) = gc * tc"
      by (rule wellformed2d_rows(2) [OF assms(1,2)])
    have "map (\<lambda>j. content (tile_slice m tr tc i j) ! r) [0..<gc]
          = map (\<lambda>j. take tc (drop (j * tc) (content m ! (i * tr + r)))) [0..<gc]"
      by (rule map_cong [OF refl]) (simp add: tile_slice_row [OF assms(1-3) _ r])
    then have "concat (map (\<lambda>j. content (tile_slice m tr tc i j) ! r) [0..<gc])
          = concat (map (\<lambda>j. take tc (drop (j * tc) (content m ! (i * tr + r)))) [0..<gc])"
      by (rule arg_cong)
    also have "\<dots> = content m ! (i * tr + r)"
      using rowlen by (rule concat_chunks)
    finally show "hstack (map (\<lambda>j. tile_slice m tr tc i j) [0..<gc]) ! r
                  = take tr (drop (i * tr) (content m)) ! r"
      using r len \<open>i * tr + r < gr * tr\<close> assms(3) by (simp add: h)
  qed
qed

lemma assemble_tiles:
  assumes "wellformed2d m" and "shape m = [gr * tr, gc * tc]" and "0 < gc"
  shows "assemble (tiles m gr gc tr tc) = content m"
proof -
  have len: "length (content m) = gr * tr" by (rule wellformed2d_rows(1) [OF assms(1,2)])
  have eq: "map (\<lambda>i. hstack (map (\<lambda>j. tile_slice m tr tc i j) [0..<gc])) [0..<gr]
        = map (\<lambda>i. take tr (drop (i * tr) (content m))) [0..<gr]"
    by (rule map_cong [OF refl]) (simp add: hstack_tiles [OF assms(1,2) _ assms(3)])
  have "assemble (tiles m gr gc tr tc)
        = concat (map (\<lambda>i. hstack (map (\<lambda>j. tile_slice m tr tc i j) [0..<gc])) [0..<gr])"
    by (simp add: assemble_def tiles_def o_def)
  then show ?thesis using concat_chunks [OF len] by (simp only: eq)
qed


lemma tile_cells_disjoint:
  assumes "(i, j) \<noteq> (i', j')"
  shows "tile_cells tr tc i j \<inter> tile_cells tr tc i' j' = {}"
proof -
  have sep: "{a * t..<(a + 1) * t} \<inter> {b * t..<(b + 1) * t} = {}" if "a < b" for a b t :: nat
  proof -
    have "(a + 1) * t \<le> b * t" using that by (metis Suc_eq_plus1 Suc_leI mult_le_mono1)
    then show ?thesis by auto
  qed
  have sep': "{a * t..<(a + 1) * t} \<inter> {b * t..<(b + 1) * t} = {}" if "a \<noteq> b" for a b t :: nat
    using that sep [of a b t] sep [of b a t] by (cases "a < b") auto
  from assms consider "i \<noteq> i'" | "j \<noteq> j'" by auto
  then show ?thesis
  proof cases
    case 1
    then show ?thesis using sep' [of i i' tr] by (auto simp: tile_cells_def)
  next
    case 2
    then show ?thesis using sep' [of j j' tc] by (auto simp: tile_cells_def)
  qed
qed

lemma chunk_cover: "(\<Union>i\<in>{..<g}. {i * t..<(i + 1) * t}) = {..<g * (t::nat)}"
proof (rule set_eqI, rule iffI)
  fix x assume "x \<in> (\<Union>i\<in>{..<g}. {i * t..<(i + 1) * t})"
  then obtain i where i: "i < g" "x < (i + 1) * t" by auto
  have "(i + 1) * t \<le> g * t" using i(1) by (metis Suc_eq_plus1 Suc_leI mult_le_mono1)
  then show "x \<in> {..<g * t}" using i(2) by simp
next
  fix x assume "x \<in> {..<g * t}"
  then have x: "x < g * t" by simp
  then have t: "0 < t" by (cases t) auto
  have "x div t < g" using x t by (simp add: less_mult_imp_div_less)
  then have "x div t \<in> {..<g}" by simp
  moreover have "x div t * t \<le> x" by simp
  moreover have "x < (x div t + 1) * t" using t by (simp add: dividend_less_div_times)
  ultimately have "\<exists>i\<in>{..<g}. x \<in> {i * t..<(i + 1) * t}"
    by (intro bexI [of _ "x div t"]) simp_all
  then show "x \<in> (\<Union>i\<in>{..<g}. {i * t..<(i + 1) * t})" by blast
qed

lemma tile_cells_cover:
  "(\<Union>i\<in>{..<gr}. \<Union>j\<in>{..<gc}. tile_cells tr tc i j) = {..<gr * tr} \<times> {..<gc * tc}"
proof -
  have "(\<Union>i\<in>{..<gr}. \<Union>j\<in>{..<gc}. tile_cells tr tc i j)
        = (\<Union>i\<in>{..<gr}. {i * tr..<(i + 1) * tr}) \<times> (\<Union>j\<in>{..<gc}. {j * tc..<(j + 1) * tc})"
    by (auto simp: tile_cells_def)
  then show ?thesis by (simp only: chunk_cover)
qed

lemma validate_Inr:
  assumes "validate a = Inr (m, gr, gc, tile_rows, tile_cols)"
  shows "matrix a = IsNdarray m" and "ndim m = 2" and "mode a = ''binary'' \<or> mode a = ''color''"
    and "grid_value (grid_rows a) = Some gr" and "grid_value (grid_cols a) = Some gc"
    and "0 < gr" and "0 < gc"
    and "int (shape m ! 0) mod gr = 0" and "int (shape m ! 1) mod gc = 0"
    and "tile_rows = int (shape m ! 0) div gr" and "tile_cols = int (shape m ! 1) div gc"
  using assms
  by (auto simp: validate_def grid_value_def check_grid_def effective_grid_def Let_def
      split: py_matrix.splits py_arg.splits if_splits)

lemma exact_division:
  assumes "0 < g" and "int n mod g = 0"
  shows "n = nat g * nat (int n div g)"
proof -
  have "int n = g * (int n div g)" using assms(2) by auto
  moreover have "0 \<le> int n div g" using assms(1) by (simp add: pos_imp_zdiv_nonneg_iff)
  ultimately have "int n = int (nat g * nat (int n div g))" using assms(1) by simp
  then show ?thesis by (simp only: of_nat_eq_iff)
qed

lemma validated_shape:
  assumes "validate a = Inr (m, gr, gc, tile_rows, tile_cols)" and "wellformed2d m"
  shows "shape m = [nat gr * nat tile_rows, nat gc * nat tile_cols]"
proof -
  obtain R C where rc: "shape m = [R, C]"
    using assms(2) by (auto simp: wellformed2d_def split: list.splits)
  have "R = nat gr * nat tile_rows"
    using validate_Inr(6,8,10) [OF assms(1)] rc exact_division [of gr R] by simp
  moreover have "C = nat gc * nat tile_cols"
    using validate_Inr(7,9,11) [OF assms(1)] rc exact_division [of gc C] by simp
  ultimately show ?thesis using rc by simp
qed

text \<open>
  The slices taken alone. For a two-dimensional matrix that passes validation (positive
  grid dimensions that divide the matrix dimensions), the slices of lines 125 and 145 with
  the tile size of lines 79 and 80 partition the matrix: there are \<open>grid_rows\<close> by
  \<open>grid_cols\<close> of them, each a well-formed array of \<open>rows / grid_rows\<close> by
  \<open>cols / grid_cols\<close> elements, the slice at \<open>(i, j)\<close> is the block of the matrix that
  starts at row \<open>i * tile_rows\<close> and column \<open>j * tile_cols\<close>, the blocks of two different
  grid positions share no position, together they cover every position of the matrix, and
  the slices put together again in grid order are the matrix.
\<close>

lemma tile_slices_partition:
  assumes "validate a = Inr (m, gr, gc, tile_rows, tile_cols)" and "wellformed2d m"
  shows "int (shape m ! 0) = gr * tile_rows \<and> int (shape m ! 1) = gc * tile_cols
    \<and> length (tiles m (nat gr) (nat gc) (nat tile_rows) (nat tile_cols)) = nat gr
    \<and> (\<forall>i<nat gr. \<forall>j<nat gc.
          length (tiles m (nat gr) (nat gc) (nat tile_rows) (nat tile_cols) ! i) = nat gc
          \<and> tiles m (nat gr) (nat gc) (nat tile_rows) (nat tile_cols) ! i ! j
              = tile_slice m (nat tile_rows) (nat tile_cols) i j
          \<and> wellformed2d (tile_slice m (nat tile_rows) (nat tile_cols) i j)
          \<and> shape (tile_slice m (nat tile_rows) (nat tile_cols) i j) = [nat tile_rows, nat tile_cols]
          \<and> (\<forall>r<nat tile_rows. \<forall>c<nat tile_cols.
                content (tile_slice m (nat tile_rows) (nat tile_cols) i j) ! r ! c
                = content m ! (i * nat tile_rows + r) ! (j * nat tile_cols + c)))
    \<and> (\<forall>i j i' j'. (i, j) \<noteq> (i', j') \<longrightarrow>
          tile_cells (nat tile_rows) (nat tile_cols) i j
            \<inter> tile_cells (nat tile_rows) (nat tile_cols) i' j' = {})
    \<and> (\<Union>i\<in>{..<nat gr}. \<Union>j\<in>{..<nat gc}. tile_cells (nat tile_rows) (nat tile_cols) i j)
         = {..<shape m ! 0} \<times> {..<shape m ! 1}
    \<and> assemble (tiles m (nat gr) (nat gc) (nat tile_rows) (nat tile_cols)) = content m"
proof -
  note v = validate_Inr [OF assms(1)]
  note sh = validated_shape [OF assms]
  have pos: "0 < nat gc" using v(7) by simp
  have 1: "int (shape m ! 0) = gr * tile_rows" "int (shape m ! 1) = gc * tile_cols"
    using v(8-11) by auto
  have 2: "length (tiles m (nat gr) (nat gc) (nat tile_rows) (nat tile_cols)) = nat gr"
    by (simp add: tiles_def)
  have 3: "length (tiles m (nat gr) (nat gc) (nat tile_rows) (nat tile_cols) ! i) = nat gc
          \<and> tiles m (nat gr) (nat gc) (nat tile_rows) (nat tile_cols) ! i ! j
              = tile_slice m (nat tile_rows) (nat tile_cols) i j
          \<and> wellformed2d (tile_slice m (nat tile_rows) (nat tile_cols) i j)
          \<and> shape (tile_slice m (nat tile_rows) (nat tile_cols) i j) = [nat tile_rows, nat tile_cols]
          \<and> (\<forall>r<nat tile_rows. \<forall>c<nat tile_cols.
                content (tile_slice m (nat tile_rows) (nat tile_cols) i j) ! r ! c
                = content m ! (i * nat tile_rows + r) ! (j * nat tile_cols + c))"
    if "i < nat gr" "j < nat gc" for i j
    using that tile_slice_wellformed [OF assms(2) sh that] tile_slice_shape [OF sh that]
      tile_slice_nth [OF assms(2) sh that]
    by (simp add: tiles_def)
  have 4: "(\<Union>i\<in>{..<nat gr}. \<Union>j\<in>{..<nat gc}. tile_cells (nat tile_rows) (nat tile_cols) i j)
         = {..<shape m ! 0} \<times> {..<shape m ! 1}"
    by (simp only: tile_cells_cover sh) simp
  have 5: "assemble (tiles m (nat gr) (nat gc) (nat tile_rows) (nat tile_cols)) = content m"
    by (rule assemble_tiles [OF assms(2) sh pos])
  have 6: "\<forall>i j i' j'. (i, j) \<noteq> (i', j') \<longrightarrow>
          tile_cells (nat tile_rows) (nat tile_cols) i j
            \<inter> tile_cells (nat tile_rows) (nat tile_cols) i' j' = {}"
    using tile_cells_disjoint by blast
  from 3 have each: "\<forall>i<nat gr. \<forall>j<nat gc.
          length (tiles m (nat gr) (nat gc) (nat tile_rows) (nat tile_cols) ! i) = nat gc
          \<and> tiles m (nat gr) (nat gc) (nat tile_rows) (nat tile_cols) ! i ! j
              = tile_slice m (nat tile_rows) (nat tile_cols) i j
          \<and> wellformed2d (tile_slice m (nat tile_rows) (nat tile_cols) i j)
          \<and> shape (tile_slice m (nat tile_rows) (nat tile_cols) i j) = [nat tile_rows, nat tile_cols]
          \<and> (\<forall>r<nat tile_rows. \<forall>c<nat tile_cols.
                content (tile_slice m (nat tile_rows) (nat tile_cols) i j) ! r ! c
                = content m ! (i * nat tile_rows + r) ! (j * nat tile_cols + c))"
    by blast
  show ?thesis
    by (intro conjI) (fact 1 2 each 4 5 6)+
qed

section \<open>The loops over the tiles\<close>

lemma for_each_append:
  "for_each body (xs @ ys) s
   = (case for_each body xs s of (Inl e, s') \<Rightarrow> (Inl e, s') | (Inr u, s') \<Rightarrow> for_each body ys s')"
  by (induction xs arbitrary: s) (auto split: prod.splits sum.splits)

lemma for_each_map: "for_each body (map f xs) s = for_each (\<lambda>x. body (f x)) xs s"
  by (induction xs arbitrary: s) (auto split: prod.splits sum.splits)

lemma for_each_nested:
  "for_each (\<lambda>i. for_each (\<lambda>j. body i j) ys) xs s
   = for_each (\<lambda>(i, j). body i j) (List.product xs ys) s"
  by (induction xs arbitrary: s) (auto simp: for_each_append for_each_map split: prod.splits sum.splits)


lemma nth_list_update_if:
  "xs[i := x] ! j = (if i = j \<and> i < length xs then x else xs ! j)"
  by (cases "i < length xs") (simp_all add: nth_list_update list_update_beyond)

lemma grid_shaped_nth:
  "grid_shaped g nr nc \<Longrightarrow> length g = nr \<and> (\<forall>i<nr. length (g ! i) = nc)"
  by (simp add: grid_shaped_def list_all_length)

lemma grid_shaped_setitem2:
  "grid_shaped g nr nc \<Longrightarrow> grid_shaped (setitem2 g i j v) nr nc"
  by (simp add: grid_shaped_def list_all_length setitem2_def nth_list_update_if)

lemma index2_grid:
  "grid_shaped g nr nc \<Longrightarrow> i < nr \<Longrightarrow> j < nc \<Longrightarrow> index2 g i j = Inr (g ! i ! j)"
  by (simp add: grid_shaped_def list_all_length index2_def)

lemma setitem2_nth:
  assumes "grid_shaped g nr nc" and "i < nr" and "j < nc" and "i' < nr" and "j' < nc"
  shows "setitem2 g i j v ! i' ! j' = (if i' = i \<and> j' = j then v else g ! i' ! j')"
  using assms by (simp add: grid_shaped_def list_all_length setitem2_def nth_list_update_if)

lemma cell_ref_images [simp]: "cell_ref (w\<lparr>images := x\<rparr>) io i j = cell_ref w io i j"
  by (simp add: cell_ref_def)

lemma cell_ref_setitem:
  assumes "io < length (object_arrays w)" and "grid_shaped (object_arrays w ! io) nr nc"
    and "i < nr" and "j < nc" and "i' < nr" and "j' < nc"
  shows "cell_ref (w\<lparr>object_arrays := (object_arrays w)[io := setitem2 (object_arrays w ! io) i j v]\<rparr>)
           io i' j'
         = (if i' = i \<and> j' = j then v else cell_ref w io i' j')"
  using assms(1) setitem2_nth [OF assms(2-6)] by (simp add: cell_ref_def)

lemma handle_ok_parts:
  assumes "handle_ok w (fig, axs, io) nr nc"
  shows "fig < length (figures w)" and "grid_shaped axs nr nc" and "io < length (object_arrays w)"
    and "grid_shaped (object_arrays w ! io) nr nc"
    and "\<And>i j k. i < nr \<Longrightarrow> j < nc \<Longrightarrow> cell_ref w io i j = Some k \<Longrightarrow> k < length (images w)"
    and "\<And>i j i' j' k. i < nr \<Longrightarrow> j < nc \<Longrightarrow> i' < nr \<Longrightarrow> j' < nc \<Longrightarrow> cell_ref w io i j = Some k
           \<Longrightarrow> cell_ref w io i' j' = Some k \<Longrightarrow> i' = i \<and> j' = j"
proof -
  have cells: "\<forall>i<nr. \<forall>j<nc.
          case cell_ref w io i j of
            None \<Rightarrow> True
          | Some k \<Rightarrow>
              k < length (images w)
              \<and> (\<forall>i'<nr. \<forall>j'<nc. cell_ref w io i' j' = Some k \<longrightarrow> i' = i \<and> j' = j)"
    using assms by (simp add: handle_ok_def)
  show "fig < length (figures w)" "grid_shaped axs nr nc" "io < length (object_arrays w)"
    "grid_shaped (object_arrays w ! io) nr nc"
    using assms by (simp_all add: handle_ok_def)
  show "k < length (images w)" if "i < nr" "j < nc" "cell_ref w io i j = Some k" for i j k
    using cells [rule_format, OF that(1,2)] that(3) by simp
  show "i' = i \<and> j' = j"
    if "i < nr" "j < nc" "i' < nr" "j' < nc" "cell_ref w io i j = Some k" "cell_ref w io i' j' = Some k"
    for i j i' j' k
    using cells [rule_format, OF that(1,2)] that(3-6) by simp
qed

lemma handle_okI:
  assumes "fig < length (figures w)" and "grid_shaped axs nr nc" and "io < length (object_arrays w)"
    and "grid_shaped (object_arrays w ! io) nr nc"
    and "\<And>i j k. i < nr \<Longrightarrow> j < nc \<Longrightarrow> cell_ref w io i j = Some k \<Longrightarrow> k < length (images w)"
    and "\<And>i j i' j' k. i < nr \<Longrightarrow> j < nc \<Longrightarrow> i' < nr \<Longrightarrow> j' < nc \<Longrightarrow> cell_ref w io i j = Some k
           \<Longrightarrow> cell_ref w io i' j' = Some k \<Longrightarrow> i' = i \<and> j' = j"
  shows "handle_ok w (fig, axs, io) nr nc"
  using assms(1-4) assms(5,6) by (simp add: handle_ok_def split: option.splits)


lemma draw_tile_unfold:
  assumes "handle_ok w (fig, axs, io) nr nc" and "i < nr" and "j < nc"
  shows "draw_tile axs io tile_of cm lo hi i j w =
     (case cell_ref w io i j of
        None \<Rightarrow>
          (Inr (),
           w\<lparr>images := images w
               @ [\<lparr>im_axes = axs ! i ! j, im_data = tile_of i j, im_cmap = cm, im_clim = (lo, hi)\<rparr>],
             object_arrays := (object_arrays w)
               [io := setitem2 (object_arrays w ! io) i j (Some (length (images w)))]\<rparr>)
      | Some k \<Rightarrow>
          (Inr (),
           w\<lparr>images := (images w)
               [k := (images w ! k)\<lparr>im_data := tile_of i j, im_cmap := cm, im_clim := (lo, hi)\<rparr>]\<rparr>))"
  using handle_ok_parts(2,4) [OF assms(1)] assms(2,3)
  by (simp add: draw_tile_def index2_grid cell_ref_def Let_def split: option.splits)

lemma draw_tile_step:
  fixes w :: "'a world" and tile_of cm lo hi
  assumes ok: "handle_ok w (fig, axs, io) nr nc" and i: "i < nr" and j: "j < nc"
  defines "w1 \<equiv> snd (draw_tile axs io tile_of cm lo hi i j w)"
  shows "draw_tile axs io tile_of cm lo hi i j w = (Inr (), w1)"
    and "handle_ok w1 (fig, axs, io) nr nc"
    and "cell_shows w1 io i j (tile_of i j) cm (lo, hi)"
    and "\<And>i' j' d c l. i' < nr \<Longrightarrow> j' < nc \<Longrightarrow> (i', j') \<noteq> (i, j) \<Longrightarrow> cell_shows w io i' j' d c l
           \<Longrightarrow> cell_shows w1 io i' j' d c l"
    and "\<And>i' j' k. i' < nr \<Longrightarrow> j' < nc \<Longrightarrow> cell_ref w io i' j' = Some k
           \<Longrightarrow> cell_ref w1 io i' j' = Some k"
    and "figure_cache w1 = figure_cache w \<and> open_fignums w1 = open_fignums w
         \<and> figures w1 = figures w \<and> axes_objs w1 = axes_objs w
         \<and> length (images w) \<le> length (images w1)"
    and "cell_ref w io i j \<noteq> None \<Longrightarrow> length (images w1) = length (images w)"
proof -
  note p = handle_ok_parts [OF ok]
  note unf = draw_tile_unfold [OF ok i j, of tile_of cm lo hi]
  show run: "draw_tile axs io tile_of cm lo hi i j w = (Inr (), w1)"
    unfolding w1_def by (simp add: unf split: option.splits)
  show "figure_cache w1 = figure_cache w \<and> open_fignums w1 = open_fignums w
         \<and> figures w1 = figures w \<and> axes_objs w1 = axes_objs w
         \<and> length (images w) \<le> length (images w1)"
    unfolding w1_def by (simp add: unf split: option.splits)
  show "cell_ref w io i j \<noteq> None \<Longrightarrow> length (images w1) = length (images w)"
    unfolding w1_def by (auto simp add: unf split: option.splits)
  have combined: "handle_ok w1 (fig, axs, io) nr nc \<and> cell_shows w1 io i j (tile_of i j) cm (lo, hi)
      \<and> (\<forall>i' j' d c l. i' < nr \<longrightarrow> j' < nc \<longrightarrow> (i', j') \<noteq> (i, j) \<longrightarrow> cell_shows w io i' j' d c l
           \<longrightarrow> cell_shows w1 io i' j' d c l)
      \<and> (\<forall>i' j' k. i' < nr \<longrightarrow> j' < nc \<longrightarrow> cell_ref w io i' j' = Some k
           \<longrightarrow> cell_ref w1 io i' j' = Some k)"
  proof (cases "cell_ref w io i j")
    case None
    define n where "n = length (images w)"
    have w1: "w1 = w\<lparr>images := images w
               @ [\<lparr>im_axes = axs ! i ! j, im_data = tile_of i j, im_cmap = cm, im_clim = (lo, hi)\<rparr>],
             object_arrays := (object_arrays w)
               [io := setitem2 (object_arrays w ! io) i j (Some n)]\<rparr>"
      unfolding w1_def n_def by (simp add: unf None)
    have ref: "cell_ref w1 io i' j' = (if i' = i \<and> j' = j then Some n else cell_ref w io i' j')"
      if "i' < nr" "j' < nc" for i' j'
      using cell_ref_setitem [OF p(3,4) i j that, of "Some n"] by (simp add: w1 cell_ref_def)
    have len: "length (images w1) = Suc n" by (simp add: w1 n_def)
    have old: "images w1 ! k = images w ! k" if "k < n" for k
      using that by (simp add: w1 n_def nth_append)
    have new: "images w1 ! n
               = \<lparr>im_axes = axs ! i ! j, im_data = tile_of i j, im_cmap = cm, im_clim = (lo, hi)\<rparr>"
      by (simp add: w1 n_def)
    have bound: "k < n" if "i' < nr" "j' < nc" "cell_ref w io i' j' = Some k" for i' j' k
      using p(5) [OF that] by (simp add: n_def)
    have ok1: "handle_ok w1 (fig, axs, io) nr nc"
    proof (rule handle_okI)
      show "fig < length (figures w1)" using p(1) by (simp add: w1)
      show "grid_shaped axs nr nc" by (rule p(2))
      show "io < length (object_arrays w1)" using p(3) by (simp add: w1)
      show "grid_shaped (object_arrays w1 ! io) nr nc"
        using p(3) grid_shaped_setitem2 [OF p(4)] by (simp add: w1)
    next
      fix i' j' k assume a: "i' < nr" "j' < nc" "cell_ref w1 io i' j' = Some k"
      then show "k < length (images w1)"
        using ref [OF a(1,2)] bound [OF a(1,2)] len by (auto split: if_splits)
    next
      fix i1 j1 i2 j2 k
      assume a: "i1 < nr" "j1 < nc" "i2 < nr" "j2 < nc"
        "cell_ref w1 io i1 j1 = Some k" "cell_ref w1 io i2 j2 = Some k"
      show "i2 = i1 \<and> j2 = j1"
      proof (cases "k = n")
        case True
        have "i1 = i \<and> j1 = j" using ref [OF a(1,2)] a(5) bound [OF a(1,2), of k] True
          by (auto split: if_splits)
        moreover have "i2 = i \<and> j2 = j" using ref [OF a(3,4)] a(6) bound [OF a(3,4), of k] True
          by (auto split: if_splits)
        ultimately show ?thesis by simp
      next
        case False
        have "cell_ref w io i1 j1 = Some k" using ref [OF a(1,2)] a(5) False
          by (auto split: if_splits)
        moreover have "cell_ref w io i2 j2 = Some k" using ref [OF a(3,4)] a(6) False
          by (auto split: if_splits)
        ultimately show ?thesis using p(6) [OF a(1-4)] by simp
      qed
    qed
    have shows1: "cell_shows w1 io i j (tile_of i j) cm (lo, hi)"
      using ref [OF i j] len new by (simp add: cell_shows_def)
    have keep: "cell_shows w1 io i' j' d c l"
      if h: "i' < nr" "j' < nc" "(i', j') \<noteq> (i, j)" "cell_shows w io i' j' d c l" for i' j' d c l
    proof -
      obtain k where k: "cell_ref w io i' j' = Some k" "k < length (images w)"
        "im_data (images w ! k) = d" "im_cmap (images w ! k) = c" "im_clim (images w ! k) = l"
        using h(4) by (auto simp: cell_shows_def split: option.splits)
      have "cell_ref w1 io i' j' = Some k" using ref [OF h(1,2)] h(3) k(1) by auto
      then show ?thesis using k old [of k] len by (simp add: cell_shows_def n_def)
    qed
    have same: "cell_ref w1 io i' j' = Some k"
      if "i' < nr" "j' < nc" "cell_ref w io i' j' = Some k" for i' j' k
      using ref [OF that(1,2)] that(3) None by auto
    show "handle_ok w1 (fig, axs, io) nr nc \<and> cell_shows w1 io i j (tile_of i j) cm (lo, hi)
      \<and> (\<forall>i' j' d c l. i' < nr \<longrightarrow> j' < nc \<longrightarrow> (i', j') \<noteq> (i, j) \<longrightarrow> cell_shows w io i' j' d c l
           \<longrightarrow> cell_shows w1 io i' j' d c l)
      \<and> (\<forall>i' j' k. i' < nr \<longrightarrow> j' < nc \<longrightarrow> cell_ref w io i' j' = Some k
           \<longrightarrow> cell_ref w1 io i' j' = Some k)"
      using ok1 shows1 keep same by blast
  next
    case (Some k)
    have w1: "w1 = w\<lparr>images := (images w)
               [k := (images w ! k)\<lparr>im_data := tile_of i j, im_cmap := cm, im_clim := (lo, hi)\<rparr>]\<rparr>"
      unfolding w1_def by (simp add: unf Some)
    have ref: "cell_ref w1 io i' j' = cell_ref w io i' j'" for i' j'
      by (simp add: w1)
    have kb: "k < length (images w)" by (rule p(5) [OF i j Some])
    have ok1: "handle_ok w1 (fig, axs, io) nr nc"
    proof (rule handle_okI)
      show "fig < length (figures w1)" using p(1) by (simp add: w1)
      show "grid_shaped axs nr nc" by (rule p(2))
      show "io < length (object_arrays w1)" using p(3) by (simp add: w1)
      show "grid_shaped (object_arrays w1 ! io) nr nc" using p(4) by (simp add: w1)
    next
      fix i' j' k' assume a: "i' < nr" "j' < nc" "cell_ref w1 io i' j' = Some k'"
      then show "k' < length (images w1)" using p(5) [OF a(1,2)] by (simp add: w1)
    next
      fix i1 j1 i2 j2 k'
      assume a: "i1 < nr" "j1 < nc" "i2 < nr" "j2 < nc"
        "cell_ref w1 io i1 j1 = Some k'" "cell_ref w1 io i2 j2 = Some k'"
      then show "i2 = i1 \<and> j2 = j1" using p(6) [OF a(1-4)] by (simp add: w1)
    qed
    have shows1: "cell_shows w1 io i j (tile_of i j) cm (lo, hi)"
      using kb Some by (simp add: cell_shows_def w1)
    have keep: "cell_shows w1 io i' j' d c l"
      if h: "i' < nr" "j' < nc" "(i', j') \<noteq> (i, j)" "cell_shows w io i' j' d c l" for i' j' d c l
    proof -
      obtain k' where k: "cell_ref w io i' j' = Some k'" "k' < length (images w)"
        "im_data (images w ! k') = d" "im_cmap (images w ! k') = c" "im_clim (images w ! k') = l"
        using h(4) by (auto simp: cell_shows_def split: option.splits)
      have "k' \<noteq> k" using p(6) [OF i j h(1,2) Some] k(1) h(3) by auto
      then show ?thesis using k by (simp add: cell_shows_def w1)
    qed
    show "handle_ok w1 (fig, axs, io) nr nc \<and> cell_shows w1 io i j (tile_of i j) cm (lo, hi)
      \<and> (\<forall>i' j' d c l. i' < nr \<longrightarrow> j' < nc \<longrightarrow> (i', j') \<noteq> (i, j) \<longrightarrow> cell_shows w io i' j' d c l
           \<longrightarrow> cell_shows w1 io i' j' d c l)
      \<and> (\<forall>i' j' k. i' < nr \<longrightarrow> j' < nc \<longrightarrow> cell_ref w io i' j' = Some k
           \<longrightarrow> cell_ref w1 io i' j' = Some k)"
      using ok1 shows1 keep ref by simp
  qed
  show "handle_ok w1 (fig, axs, io) nr nc" using combined by blast
  show "cell_shows w1 io i j (tile_of i j) cm (lo, hi)" using combined by blast
  show "\<And>i' j' d c l. i' < nr \<Longrightarrow> j' < nc \<Longrightarrow> (i', j') \<noteq> (i, j) \<Longrightarrow> cell_shows w io i' j' d c l
           \<Longrightarrow> cell_shows w1 io i' j' d c l"
    using combined by blast
  show "\<And>i' j' k. i' < nr \<Longrightarrow> j' < nc \<Longrightarrow> cell_ref w io i' j' = Some k
           \<Longrightarrow> cell_ref w1 io i' j' = Some k"
    using combined by blast
qed


lemma draw_loop:
  fixes w :: "'a world" and tile_of cm lo hi
  assumes "handle_ok w (fig, axs, io) nr nc" and "distinct cs"
    and "\<forall>c\<in>set cs. fst c < nr \<and> snd c < nc"
  shows "fst (for_each (\<lambda>(i, j). draw_tile axs io tile_of cm lo hi i j) cs w) = Inr ()
    \<and> handle_ok (snd (for_each (\<lambda>(i, j). draw_tile axs io tile_of cm lo hi i j) cs w))
        (fig, axs, io) nr nc
    \<and> (\<forall>c\<in>set cs.
          cell_shows (snd (for_each (\<lambda>(i, j). draw_tile axs io tile_of cm lo hi i j) cs w)) io
            (fst c) (snd c) (tile_of (fst c) (snd c)) cm (lo, hi))
    \<and> (\<forall>i' j' d c l. i' < nr \<longrightarrow> j' < nc \<longrightarrow> (i', j') \<notin> set cs \<longrightarrow> cell_shows w io i' j' d c l
          \<longrightarrow> cell_shows (snd (for_each (\<lambda>(i, j). draw_tile axs io tile_of cm lo hi i j) cs w)) io
                i' j' d c l)
    \<and> (\<forall>i' j' k. i' < nr \<longrightarrow> j' < nc \<longrightarrow> cell_ref w io i' j' = Some k
          \<longrightarrow> cell_ref (snd (for_each (\<lambda>(i, j). draw_tile axs io tile_of cm lo hi i j) cs w)) io
                i' j' = Some k)
    \<and> figure_cache (snd (for_each (\<lambda>(i, j). draw_tile axs io tile_of cm lo hi i j) cs w))
        = figure_cache w
    \<and> open_fignums (snd (for_each (\<lambda>(i, j). draw_tile axs io tile_of cm lo hi i j) cs w))
        = open_fignums w
    \<and> figures (snd (for_each (\<lambda>(i, j). draw_tile axs io tile_of cm lo hi i j) cs w)) = figures w
    \<and> axes_objs (snd (for_each (\<lambda>(i, j). draw_tile axs io tile_of cm lo hi i j) cs w))
        = axes_objs w
    \<and> length (images w)
        \<le> length (images (snd (for_each (\<lambda>(i, j). draw_tile axs io tile_of cm lo hi i j) cs w)))
    \<and> ((\<forall>c\<in>set cs. cell_ref w io (fst c) (snd c) \<noteq> None)
        \<longrightarrow> length (images (snd (for_each (\<lambda>(i, j). draw_tile axs io tile_of cm lo hi i j) cs w)))
            = length (images w))"
  using assms
proof (induction cs arbitrary: w)
  case Nil
  then show ?case by simp
next
  case (Cons c cs)
  obtain i j where c: "c = (i, j)" by (cases c)
  have ij: "i < nr" "j < nc" using Cons.prems(3) c by simp_all
  define w1 where "w1 = snd (draw_tile axs io tile_of cm lo hi i j w)"
  note st = draw_tile_step [OF Cons.prems(1) ij,
      where tile_of = tile_of and cm = cm and lo = lo and hi = hi, folded w1_def]
  let ?B = "\<lambda>(i, j). draw_tile axs io tile_of cm lo hi i j"
  have run: "for_each ?B (c # cs) w = for_each ?B cs w1"
    using st(1) by (simp add: c)
  have d: "distinct cs" "c \<notin> set cs" using Cons.prems(2) by simp_all
  have r: "\<forall>c\<in>set cs. fst c < nr \<and> snd c < nc" using Cons.prems(3) by simp
  note ih = Cons.IH [OF st(2) d(1) r]
  define w' where "w' = snd (for_each ?B cs w1)"
  have ih1: "fst (for_each ?B cs w1) = Inr ()" and ih2: "handle_ok w' (fig, axs, io) nr nc"
    and ih3: "\<forall>c\<in>set cs. cell_shows w' io (fst c) (snd c) (tile_of (fst c) (snd c)) cm (lo, hi)"
    and ih4: "\<forall>i' j' d c l. i' < nr \<longrightarrow> j' < nc \<longrightarrow> (i', j') \<notin> set cs \<longrightarrow> cell_shows w1 io i' j' d c l
          \<longrightarrow> cell_shows w' io i' j' d c l"
    and ih5: "\<forall>i' j' k. i' < nr \<longrightarrow> j' < nc \<longrightarrow> cell_ref w1 io i' j' = Some k
          \<longrightarrow> cell_ref w' io i' j' = Some k"
    and ih6: "figure_cache w' = figure_cache w1" "open_fignums w' = open_fignums w1"
      "figures w' = figures w1" "axes_objs w' = axes_objs w1"
      "length (images w1) \<le> length (images w')"
    and ih7: "(\<forall>c\<in>set cs. cell_ref w1 io (fst c) (snd c) \<noteq> None)
        \<longrightarrow> length (images w') = length (images w1)"
    using ih unfolding w'_def by blast+
  have a1: "fst (for_each ?B (c # cs) w) = Inr ()" using ih1 run by simp
  have a2: "handle_ok (snd (for_each ?B (c # cs) w)) (fig, axs, io) nr nc"
    using ih2 run by (simp add: w'_def)
  have "cell_shows w' io i j (tile_of i j) cm (lo, hi)"
    using ih4 ij d(2) st(3) c by blast
  then have a3: "\<forall>c\<in>set (c # cs).
          cell_shows w' io (fst c) (snd c) (tile_of (fst c) (snd c)) cm (lo, hi)"
    using ih3 c by simp
  have a4: "\<forall>i' j' d c' l. i' < nr \<longrightarrow> j' < nc \<longrightarrow> (i', j') \<notin> set (c # cs)
          \<longrightarrow> cell_shows w io i' j' d c' l \<longrightarrow> cell_shows w' io i' j' d c' l"
  proof (intro allI impI)
    fix i' j' d c' l
    assume h: "i' < nr" "j' < nc" "(i', j') \<notin> set (c # cs)" "cell_shows w io i' j' d c' l"
    have "(i', j') \<noteq> (i, j)" "(i', j') \<notin> set cs" using h(3) c by auto
    then show "cell_shows w' io i' j' d c' l"
      using st(4) [OF h(1,2) _ h(4)] ih4 h(1,2) by blast
  qed
  have a5: "\<forall>i' j' k. i' < nr \<longrightarrow> j' < nc \<longrightarrow> cell_ref w io i' j' = Some k
          \<longrightarrow> cell_ref w' io i' j' = Some k"
    using st(5) ih5 by blast
  have a6: "figure_cache w' = figure_cache w" "open_fignums w' = open_fignums w"
      "figures w' = figures w" "axes_objs w' = axes_objs w"
      "length (images w) \<le> length (images w')"
    using st(6) ih6 by simp_all
  have a7: "(\<forall>c\<in>set (c # cs). cell_ref w io (fst c) (snd c) \<noteq> None)
        \<longrightarrow> length (images w') = length (images w)"
  proof
    assume h: "\<forall>c\<in>set (c # cs). cell_ref w io (fst c) (snd c) \<noteq> None"
    then have "cell_ref w io i j \<noteq> None" using c by simp
    then have l1: "length (images w1) = length (images w)" by (rule st(7))
    have "\<forall>c\<in>set cs. cell_ref w1 io (fst c) (snd c) \<noteq> None"
    proof
      fix x assume x: "x \<in> set cs"
      then obtain k where "cell_ref w io (fst x) (snd x) = Some k" using h by auto
      moreover have "fst x < nr" "snd x < nc" using r x by simp_all
      ultimately have "cell_ref w1 io (fst x) (snd x) = Some k" using st(5) by blast
      then show "cell_ref w1 io (fst x) (snd x) \<noteq> None" by simp
    qed
    then show "length (images w') = length (images w)" using ih7 l1 by simp
  qed
  have w': "snd (for_each ?B (c # cs) w) = w'" using run by (simp add: w'_def)
  show ?case
    unfolding w' using a1 a2 [unfolded w'] a3 a4 a5 a6 a7 by (intro conjI) assumption+
qed

lemma product_cells:
  "distinct (List.product [0..<nr] [0..<nc])
   \<and> (\<forall>c\<in>set (List.product [0..<nr] [0..<nc]). fst c < nr \<and> snd c < nc)
   \<and> (\<forall>i<nr. \<forall>j<nc. (i, j) \<in> set (List.product [0..<nr] [0..<nc]))"
  by (auto simp: distinct_product)

text \<open>The two nested loops of either mode, run on a handle that satisfies its invariant.\<close>

lemma tile_loops:
  fixes w :: "'a world" and tile_of cm lo hi
  assumes "handle_ok w (fig, axs, io) nr nc"
  defines "w' \<equiv> snd (for_each (\<lambda>i. for_each (\<lambda>j. draw_tile axs io tile_of cm lo hi i j) [0..<nc])
                        [0..<nr] w)"
  shows "for_each (\<lambda>i. for_each (\<lambda>j. draw_tile axs io tile_of cm lo hi i j) [0..<nc]) [0..<nr] w
         = (Inr (), w')"
    and "handle_ok w' (fig, axs, io) nr nc"
    and "\<And>i j. i < nr \<Longrightarrow> j < nc \<Longrightarrow> cell_shows w' io i j (tile_of i j) cm (lo, hi)"
    and "\<And>i j k. i < nr \<Longrightarrow> j < nc \<Longrightarrow> cell_ref w io i j = Some k \<Longrightarrow> cell_ref w' io i j = Some k"
    and "figure_cache w' = figure_cache w" and "open_fignums w' = open_fignums w"
    and "figures w' = figures w" and "axes_objs w' = axes_objs w"
    and "length (images w) \<le> length (images w')"
    and "(\<And>i j. i < nr \<Longrightarrow> j < nc \<Longrightarrow> cell_ref w io i j \<noteq> None)
         \<Longrightarrow> length (images w') = length (images w)"
proof -
  let ?cs = "List.product [0..<nr] [0..<nc]"
  let ?B = "\<lambda>(i, j). draw_tile axs io tile_of cm lo hi i j"
  have w': "w' = snd (for_each ?B ?cs w)"
    unfolding w'_def by (simp only: for_each_nested)
  note pc = product_cells [of nr nc]
  have cs: "distinct ?cs" "\<forall>c\<in>set ?cs. fst c < nr \<and> snd c < nc"
    using pc by blast+
  note L = draw_loop [OF assms(1) cs, where tile_of = tile_of and cm = cm and lo = lo and hi = hi,
      folded w']
  have "fst (for_each ?B ?cs w) = Inr ()" using L by blast
  then show "for_each (\<lambda>i. for_each (\<lambda>j. draw_tile axs io tile_of cm lo hi i j) [0..<nc]) [0..<nr] w
         = (Inr (), w')"
    by (simp add: for_each_nested w' prod_eq_iff)
  show "handle_ok w' (fig, axs, io) nr nc" using L by blast
  show "cell_shows w' io i j (tile_of i j) cm (lo, hi)" if "i < nr" "j < nc" for i j
  proof -
    have "(i, j) \<in> set ?cs" using that by simp
    moreover have "\<forall>c\<in>set ?cs. cell_shows w' io (fst c) (snd c) (tile_of (fst c) (snd c)) cm (lo, hi)"
      using L by blast
    ultimately show ?thesis by fastforce
  qed
  show "cell_ref w' io i j = Some k" if "i < nr" "j < nc" "cell_ref w io i j = Some k" for i j k
    using L that by blast
  show "figure_cache w' = figure_cache w" "open_fignums w' = open_fignums w"
    "figures w' = figures w" "axes_objs w' = axes_objs w"
    "length (images w) \<le> length (images w')"
    using L by blast+
  show "length (images w') = length (images w)"
    if "\<And>i j. i < nr \<Longrightarrow> j < nc \<Longrightarrow> cell_ref w io i j \<noteq> None"
  proof -
    have "\<forall>c\<in>set ?cs. cell_ref w io (fst c) (snd c) \<noteq> None" using that by auto
    then show ?thesis using L by blast
  qed
qed

text \<open>The handle that lines 91 to 100 build satisfies the invariant.\<close>

lemma new_handle_ok:
  fixes w :: "'a world"
  shows "handle_ok (snd (np_empty n k (snd (plt_subplots n k fs w))))
     (length (figures w),
      map (\<lambda>i. map (\<lambda>j. length (axes_objs w) + i * k + j) [0..<k]) [0..<n],
      length (object_arrays w)) n k"
proof (rule handle_okI)
  let ?w = "snd (np_empty n k (snd (plt_subplots n k fs w)))"
  have arr: "object_arrays ?w ! length (object_arrays w) = replicate n (replicate k None)"
    by (simp add: np_empty_def plt_subplots_def Let_def)
  show "length (figures w) < length (figures ?w)"
    by (simp add: np_empty_def plt_subplots_def Let_def)
  show "grid_shaped (map (\<lambda>i. map (\<lambda>j. length (axes_objs w) + i * k + j) [0..<k]) [0..<n]) n k"
    by (simp add: grid_shaped_def list_all_iff)
  show "length (object_arrays w) < length (object_arrays ?w)"
    by (simp add: np_empty_def plt_subplots_def Let_def)
  show "grid_shaped (object_arrays ?w ! length (object_arrays w)) n k"
    by (simp add: arr grid_shaped_def list_all_iff)
  have none: "cell_ref ?w (length (object_arrays w)) i j = None" if "i < n" "j < k" for i j
    using that by (simp add: cell_ref_def arr)
  show "\<And>i j x. i < n \<Longrightarrow> j < k \<Longrightarrow> cell_ref ?w (length (object_arrays w)) i j = Some x
        \<Longrightarrow> x < length (images ?w)"
    using none by simp
  show "\<And>i j i' j' x. i < n \<Longrightarrow> j < k \<Longrightarrow> i' < n \<Longrightarrow> j' < k
        \<Longrightarrow> cell_ref ?w (length (object_arrays w)) i j = Some x
        \<Longrightarrow> cell_ref ?w (length (object_arrays w)) i' j' = Some x \<Longrightarrow> i' = i \<and> j' = j"
    using none by simp
qed

section \<open>Mode binary\<close>

lemma greater_zero_wellformed: "wellformed2d m \<Longrightarrow> wellformed2d (greater_zero m)"
  by (auto simp: wellformed2d_def greater_zero_def list_all_length split: list.splits)

lemma greater_zero_shape: "shape (greater_zero m) = shape m"
  by (simp add: greater_zero_def)

lemma greater_zero_nth:
  assumes "wellformed2d m" and "shape m = [R, C]" and "r < R" and "c < C"
  shows "content (greater_zero m) ! r ! c = (0 < content m ! r ! c)"
  using wellformed2d_rows [OF assms(1,2)] assms(3,4) by (simp add: greater_zero_def)

lemma render_binary:
  fixes w :: "'a::{zero,one,linorder} world"
  assumes "mode a = ''binary''"
  shows "render_tiles a m (fig, axs, io) nr nc tr tc w
         = for_each (\<lambda>i. for_each (\<lambda>j. draw_tile axs io
               (\<lambda>i j. BoolTile (tile_slice (greater_zero m) tr tc i j))
               (ListedColormap [''black'', ''white'']) 0 1 i j) [0..<nc]) [0..<nr] w"
  using assms by (simp add: render_tiles_def Let_def)

lemma pixel_of_cell:
  assumes "cell_shows w io i j (BoolTile t) (ListedColormap [''black'', ''white'']) (0, 1)"
  shows "pixel w io i j r c = Some (if content t ! r ! c then ''white'' else ''black'')"
  using assms by (auto simp: cell_shows_def pixel_def rendered_colour_def split: option.splits)

text \<open>
  The loops of mode binary taken alone, lines 115 to 134, on a handle that satisfies its
  invariant: they complete, and afterwards every cell of the grid holds an image whose
  data is the tile of \<^verbatim>\<open>matrix > 0\<close>, whose palette is the listed palette of black and
  white and whose range is 0 to 1. Each element is thresholded on its own: the pixel of an
  element above 0 is white and the pixel of any other element is black.
\<close>

lemma binary_loops_threshold:
  fixes w :: "'a::{zero,one,linorder} world"
  assumes "validate a = Inr (m, gr, gc, tile_rows, tile_cols)" and "wellformed2d m"
    and "mode a = ''binary''" and "handle_ok w (fig, axs, io) (nat gr) (nat gc)"
  shows "\<exists>w'. render_tiles a m (fig, axs, io) (nat gr) (nat gc) (nat tile_rows) (nat tile_cols) w
               = (Inr (), w')
    \<and> (\<forall>i<nat gr. \<forall>j<nat gc.
          cell_shows w' io i j
            (BoolTile (tile_slice (greater_zero m) (nat tile_rows) (nat tile_cols) i j))
            (ListedColormap [''black'', ''white'']) (0, 1)
          \<and> (\<forall>r<nat tile_rows. \<forall>c<nat tile_cols.
                content (tile_slice (greater_zero m) (nat tile_rows) (nat tile_cols) i j) ! r ! c
                  = (0 < content m ! (i * nat tile_rows + r) ! (j * nat tile_cols + c))
                \<and> pixel w' io i j r c
                  = Some (if 0 < content m ! (i * nat tile_rows + r) ! (j * nat tile_cols + c)
                          then ''white'' else ''black'')))
    \<and> ((\<forall>row\<in>set (content m). \<forall>x\<in>set row. x \<le> 0) \<longrightarrow>
          (\<forall>i<nat gr. \<forall>j<nat gc. \<forall>r<nat tile_rows. \<forall>c<nat tile_cols.
             pixel w' io i j r c = Some ''black''))
    \<and> ((\<forall>row\<in>set (content m). \<forall>x\<in>set row. 0 < x) \<longrightarrow>
          (\<forall>i<nat gr. \<forall>j<nat gc. \<forall>r<nat tile_rows. \<forall>c<nat tile_cols.
             pixel w' io i j r c = Some ''white''))"
proof -
  let ?tr = "nat tile_rows" and ?tc = "nat tile_cols"
  let ?tile = "\<lambda>i j. BoolTile (tile_slice (greater_zero m) ?tr ?tc i j)"
  define w' where "w' = snd (for_each (\<lambda>i. for_each (\<lambda>j. draw_tile axs io ?tile
               (ListedColormap [''black'', ''white'']) 0 1 i j) [0..<nat gc]) [0..<nat gr] w)"
  note L = tile_loops [OF assms(4), where tile_of = ?tile
      and cm = "ListedColormap [''black'', ''white'']" and lo = 0 and hi = 1, folded w'_def]
  note sh = validated_shape [OF assms(1,2)]
  have wfb: "wellformed2d (greater_zero m)" by (rule greater_zero_wellformed [OF assms(2)])
  have shb: "shape (greater_zero m) = [nat gr * ?tr, nat gc * ?tc]"
    using sh by (simp add: greater_zero_shape)
  have run: "render_tiles a m (fig, axs, io) (nat gr) (nat gc) ?tr ?tc w = (Inr (), w')"
    using L(1) by (simp add: render_binary [OF assms(3)])
  have elem: "content (tile_slice (greater_zero m) ?tr ?tc i j) ! r ! c
              = (0 < content m ! (i * ?tr + r) ! (j * ?tc + c))"
    if "i < nat gr" "j < nat gc" "r < ?tr" "c < ?tc" for i j r c
  proof -
    have "i * ?tr + r < nat gr * ?tr" using that(1,3) by (rule mult_bound)
    moreover have "j * ?tc + c < nat gc * ?tc" using that(2,4) by (rule mult_bound)
    ultimately show ?thesis
      using tile_slice_nth [OF wfb shb that] greater_zero_nth [OF assms(2) sh] by simp
  qed
  have pix: "pixel w' io i j r c
             = Some (if 0 < content m ! (i * ?tr + r) ! (j * ?tc + c) then ''white'' else ''black'')"
    if "i < nat gr" "j < nat gc" "r < ?tr" "c < ?tc" for i j r c
    using pixel_of_cell [OF L(3) [OF that(1,2)], of r c] elem [OF that] by simp
  have each: "\<forall>i<nat gr. \<forall>j<nat gc.
          cell_shows w' io i j (?tile i j) (ListedColormap [''black'', ''white'']) (0, 1)
          \<and> (\<forall>r<?tr. \<forall>c<?tc.
                content (tile_slice (greater_zero m) ?tr ?tc i j) ! r ! c
                  = (0 < content m ! (i * ?tr + r) ! (j * ?tc + c))
                \<and> pixel w' io i j r c
                  = Some (if 0 < content m ! (i * ?tr + r) ! (j * ?tc + c)
                          then ''white'' else ''black''))"
    using L(3) elem pix by blast
  have inrange: "content m ! (i * ?tr + r) \<in> set (content m)
                 \<and> content m ! (i * ?tr + r) ! (j * ?tc + c) \<in> set (content m ! (i * ?tr + r))"
    if "i < nat gr" "j < nat gc" "r < ?tr" "c < ?tc" for i j r c
  proof -
    have a: "i * ?tr + r < nat gr * ?tr" using that(1,3) by (rule mult_bound)
    have b: "j * ?tc + c < nat gc * ?tc" using that(2,4) by (rule mult_bound)
    show ?thesis
      using wellformed2d_rows [OF assms(2) sh] a b by simp
  qed
  have dark: "(\<forall>row\<in>set (content m). \<forall>x\<in>set row. x \<le> 0) \<longrightarrow>
          (\<forall>i<nat gr. \<forall>j<nat gc. \<forall>r<?tr. \<forall>c<?tc. pixel w' io i j r c = Some ''black'')"
  proof (intro impI allI)
    fix i j r c
    assume h: "\<forall>row\<in>set (content m). \<forall>x\<in>set row. x \<le> 0"
      and b: "i < nat gr" "j < nat gc" "r < ?tr" "c < ?tc"
    have "content m ! (i * ?tr + r) ! (j * ?tc + c) \<le> 0" using h inrange [OF b] by blast
    then show "pixel w' io i j r c = Some ''black''" using pix [OF b] by (simp add: not_less)
  qed
  have light: "(\<forall>row\<in>set (content m). \<forall>x\<in>set row. 0 < x) \<longrightarrow>
          (\<forall>i<nat gr. \<forall>j<nat gc. \<forall>r<?tr. \<forall>c<?tc. pixel w' io i j r c = Some ''white'')"
  proof (intro impI allI)
    fix i j r c
    assume h: "\<forall>row\<in>set (content m). \<forall>x\<in>set row. 0 < x"
      and b: "i < nat gr" "j < nat gc" "r < ?tr" "c < ?tc"
    have "0 < content m ! (i * ?tr + r) ! (j * ?tc + c)" using h inrange [OF b] by blast
    then show "pixel w' io i j r c = Some ''white''" using pix [OF b] by simp
  qed
  show ?thesis
    by (rule exI [of _ w'], intro conjI) (fact run each dark light)+
qed

section \<open>Mode color\<close>

lemma fold_min_Min: "fold min xs (x::'a::linorder) = Min (set (x # xs))"
  by (rule Min.set_eq_fold [symmetric])

lemma fold_max_Max: "fold max xs (x::'a::linorder) = Max (set (x # xs))"
  by (rule Max.set_eq_fold [symmetric])

lemma np_min_Min:
  assumes "concat (content m) \<noteq> []"
  shows "np_min m = Inr (Min (set (concat (content m))))"
proof (cases "concat (content m)")
  case Nil
  then show ?thesis using assms by simp
next
  case (Cons x xs)
  then show ?thesis by (simp only: np_min_def fold_min_Min list.case)
qed

lemma np_max_Max:
  assumes "concat (content m) \<noteq> []"
  shows "np_max m = Inr (Max (set (concat (content m))))"
proof (cases "concat (content m)")
  case Nil
  then show ?thesis using assms by simp
next
  case (Cons x xs)
  then show ?thesis by (simp only: np_max_def fold_max_Max list.case)
qed

lemma np_min_empty: "concat (content m) = [] \<Longrightarrow> np_min m = Inl ValueError"
  by (simp only: np_min_def list.case)

lemma render_color:
  fixes w :: "'a::{zero,one,linorder} world"
  assumes "mode a = ''color''"
    and "(case vmin a of Some v \<Rightarrow> Inr v | None \<Rightarrow> np_min m) = Inr lo"
    and "(case vmax a of Some v \<Rightarrow> Inr v | None \<Rightarrow> np_max m) = Inr hi"
  shows "render_tiles a m (fig, axs, io) nr nc tr tc w
         = for_each (\<lambda>i. for_each (\<lambda>j. draw_tile axs io
               (\<lambda>i j. NumTile (tile_slice m tr tc i j))
               (NamedColormap (case cmap a of Some c \<Rightarrow> c | None \<Rightarrow> ''viridis'')) lo hi i j)
             [0..<nc]) [0..<nr] w"
  using assms by (simp add: render_tiles_def Let_def)

text \<open>
  The loops of mode color taken alone, lines 136 to 154, with the default palette, on a
  handle that satisfies its invariant and for a matrix that has an element (or with both
  \<^verbatim>\<open>vmin\<close> and \<^verbatim>\<open>vmax\<close> given): they complete, and afterwards every cell of the grid
  holds an image whose data is its tile of the matrix, whose palette is viridis and whose
  range is the same for every tile: \<^verbatim>\<open>vmin\<close> where it is given and the least element
  of the whole matrix where it is not, \<^verbatim>\<open>vmax\<close> where it is given and the greatest
  element of the whole matrix where it is not.
\<close>

lemma color_loops_global_range:
  fixes w :: "'a::{zero,one,linorder} world"
  assumes "validate a = Inr (m, gr, gc, tile_rows, tile_cols)" and "wellformed2d m"
    and "mode a = ''color''" and "handle_ok w (fig, axs, io) (nat gr) (nat gc)"
    and "(vmin a \<noteq> None \<and> vmax a \<noteq> None) \<or> concat (content m) \<noteq> []"
    and "cmap a = None"
  shows "\<exists>w'. render_tiles a m (fig, axs, io) (nat gr) (nat gc) (nat tile_rows) (nat tile_cols) w
               = (Inr (), w')
    \<and> (\<forall>i<nat gr. \<forall>j<nat gc.
          cell_shows w' io i j
            (NumTile (tile_slice m (nat tile_rows) (nat tile_cols) i j))
            (NamedColormap ''viridis'')
            (case vmin a of Some v \<Rightarrow> v | None \<Rightarrow> Min (set (concat (content m))),
             case vmax a of Some v \<Rightarrow> v | None \<Rightarrow> Max (set (concat (content m)))))"
proof -
  let ?tr = "nat tile_rows" and ?tc = "nat tile_cols"
  let ?tile = "\<lambda>i j. NumTile (tile_slice m ?tr ?tc i j)"
  let ?cm = "NamedColormap ''viridis''"
  let ?lo = "case vmin a of Some v \<Rightarrow> v | None \<Rightarrow> Min (set (concat (content m)))"
  let ?hi = "case vmax a of Some v \<Rightarrow> v | None \<Rightarrow> Max (set (concat (content m)))"
  define w' where "w' = snd (for_each (\<lambda>i. for_each (\<lambda>j. draw_tile axs io ?tile
               ?cm ?lo ?hi i j) [0..<nat gc]) [0..<nat gr] w)"
  note L = tile_loops [OF assms(4), where tile_of = ?tile and cm = ?cm and lo = ?lo and hi = ?hi,
      folded w'_def]
  have lo: "(case vmin a of Some v \<Rightarrow> Inr v | None \<Rightarrow> np_min m) = Inr ?lo"
    using np_min_Min [of m] assms(5) by (auto split: option.splits)
  have hi: "(case vmax a of Some v \<Rightarrow> Inr v | None \<Rightarrow> np_max m) = Inr ?hi"
    using np_max_Max [of m] assms(5) by (auto split: option.splits)
  have run: "render_tiles a m (fig, axs, io) (nat gr) (nat gc) ?tr ?tc w = (Inr (), w')"
    using L(1) by (simp add: render_color [OF assms(3) lo hi] assms(6))
  have each: "\<forall>i<nat gr. \<forall>j<nat gc. cell_shows w' io i j (?tile i j) ?cm (?lo, ?hi)"
    using L(3) by blast
  show ?thesis
    by (rule exI [of _ w'], intro conjI) (fact run each)+
qed

text \<open>On a matrix without elements the range cannot be computed: \<^verbatim>\<open>np.min\<close> raises.\<close>

lemma color_mode_empty_matrix:
  fixes w :: "'a::{zero,one,linorder} world"
  assumes "mode a = ''color''" and "vmin a = None" and "concat (content m) = []"
  shows "render_tiles a m (fig, axs, io) nr nc tr tc w = (Inl ValueError, w)"
  using assms by (simp add: render_tiles_def np_min_empty)

section \<open>The cache over a run of the process\<close>

text \<open>
  No store into the cache succeeds, so the cache of every state of a process is empty, no
  image is ever created, and every call raises: a valid one at the store on line 103.
\<close>

lemma reachable_cache_empty:
  "reachable w \<Longrightarrow> figure_cache w = Map.empty"
proof (induction rule: reachable.induct)
  case start
  show ?case by (simp add: initial_world_def)
next
  case (call w a)
  show ?case
  proof (cases "valid_input a")
    case True
    have "\<not> cached_and_open w (call_key a)" using call.IH by (simp add: cached_and_open_def)
    then show ?thesis
      using call.IH by (simp add: draw_matrix_store_raises [OF True] failed_creation_state(1))
  next
    case False
    then obtain e where "draw_matrix a w = (Inl e, w)"
      using validate_invalid [of a] validate_unchanged [of a _ w] by blast
    then show ?thesis using call.IH by simp
  qed
next
  case (close w n)
  then show ?case by (simp add: user_closes_def)
qed

lemma reachable_no_image:
  "reachable w \<Longrightarrow> images w = []"
proof (induction rule: reachable.induct)
  case start
  show ?case by (simp add: initial_world_def)
next
  case (call w a)
  show ?case
  proof (cases "valid_input a")
    case True
    have "\<not> cached_and_open w (call_key a)"
      using reachable_cache_empty [OF call.hyps] by (simp add: cached_and_open_def)
    then show ?thesis
      using call.IH by (simp add: draw_matrix_store_raises [OF True] failed_creation_state(2))
  next
    case False
    then obtain e where "draw_matrix a w = (Inl e, w)"
      using validate_invalid [of a] validate_unchanged [of a _ w] by blast
    then show ?thesis using call.IH by simp
  qed
next
  case (close w n)
  then show ?case by (simp add: user_closes_def)
qed

lemma reachable_call_raises:
  assumes "reachable w"
  shows "\<exists>e. fst (draw_matrix a w) = Inl e"
    and "valid_input a \<Longrightarrow> fst (draw_matrix a w) = Inl TypeError"
proof -
  have miss: "\<not> cached_and_open w (call_key a)"
    using reachable_cache_empty [OF assms] by (simp add: cached_and_open_def)
  show v: "valid_input a \<Longrightarrow> fst (draw_matrix a w) = Inl TypeError"
    by (simp add: draw_matrix_store_raises [OF _ miss])
  show "\<exists>e. fst (draw_matrix a w) = Inl e"
  proof (cases "valid_input a")
    case True
    then show ?thesis using v by blast
  next
    case False
    then obtain e where "draw_matrix a w = (Inl e, w)"
      using validate_invalid [of a] validate_unchanged [of a _ w] by blast
    then show ?thesis by simp
  qed
qed

section \<open>Calls that follow one another\<close>

lemma example_call_valid: "valid_input example_call"
  by (simp add: valid_input_def example_call_def example_matrix_def default_args_def
      grid_value_def ndim_def)

lemma example_call_grid:
  "nat (the (grid_value (grid_rows example_call))) = 2"
  "nat (the (grid_value (grid_cols example_call))) = 3"
  "figsize example_call = (6, 6)"
  by (simp_all add: example_call_def default_args_def grid_value_def)

lemma example_first_call:
  "draw_matrix example_call initial_world = (Inl TypeError, fresh_world)"
proof -
  have "\<not> cached_and_open (initial_world :: int world) (call_key example_call)"
    by (simp add: cached_and_open_def initial_world_def)
  then show ?thesis
    by (simp add: draw_matrix_store_raises [OF example_call_valid] example_call_grid
        fresh_world_def)
qed

lemma fresh_world_reachable: "reachable fresh_world"
  using reachable.call [OF reachable.start, of example_call] by (simp add: example_first_call)

lemma fresh_world_fields:
  "figure_cache fresh_world = Map.empty" "open_fignums fresh_world = [1]"
  "length (figures fresh_world) = 1" "images fresh_world = []"
  by (simp_all add: fresh_world_def failed_creation_state initial_world_def)

text \<open>
  C2, evaluated on two calls with one key in a new process. The first call opens figure 1
  and raises at the store, so the cache has no handle for the key. The second call finds
  none, opens figure 2 and raises as well: nothing of the first call is used again, and
  no image is created or updated by either call.
\<close>

theorem second_call_opens_second_figure:
  "fst (draw_matrix example_call initial_world) = Inl TypeError
   \<and> snd (draw_matrix example_call initial_world) = fresh_world
   \<and> figure_cache fresh_world (call_key example_call) = None
   \<and> open_fignums fresh_world = [1]
   \<and> fst (draw_matrix example_call fresh_world) = Inl TypeError
   \<and> open_fignums (snd (draw_matrix example_call fresh_world)) = [1, 2]
   \<and> length (figures (snd (draw_matrix example_call fresh_world))) = 2
   \<and> figure_cache (snd (draw_matrix example_call fresh_world)) (call_key example_call) = None
   \<and> images (snd (draw_matrix example_call fresh_world)) = []"
proof -
  have miss: "\<not> cached_and_open fresh_world (call_key example_call)"
    by (simp add: cached_and_open_def fresh_world_fields)
  have second: "draw_matrix example_call fresh_world
        = (Inl TypeError, snd (np_empty 2 3 (snd (plt_subplots 2 3 (6, 6) fresh_world))))"
    by (simp add: draw_matrix_store_raises [OF example_call_valid miss] example_call_grid)
  show ?thesis
    by (simp add: example_first_call second failed_creation_state fresh_world_fields)
qed

text \<open>
  C7, evaluated on a call, the user closing its window, and a call with the same key. The
  second call takes the creating branch, as a call with a new key does, and raises
  \<^verbatim>\<open>TypeError\<close> at the store; the cache holds no handle for the key afterwards.
\<close>

theorem call_after_close_raises:
  "draw_matrix example_call initial_world = (Inl TypeError, fresh_world)
   \<and> open_fignums fresh_world = [1]
   \<and> open_fignums (user_closes 1 fresh_world) = []
   \<and> fst (draw_matrix example_call (user_closes 1 fresh_world)) = Inl TypeError
   \<and> figure_cache (snd (draw_matrix example_call (user_closes 1 fresh_world)))
        (call_key example_call) = None"
proof -
  have r: "reachable (user_closes 1 fresh_world)"
    by (rule reachable.close [OF fresh_world_reachable])
  have c: "figure_cache (snd (draw_matrix example_call (user_closes 1 fresh_world))) = Map.empty"
    by (rule reachable_cache_empty [OF reachable.call [OF r]])
  have o: "open_fignums (user_closes 1 fresh_world) = []"
    by (simp add: user_closes_def fresh_world_fields)
  have c': "figure_cache (snd (draw_matrix example_call (user_closes 1 fresh_world)))
        (call_key example_call) = None"
    by (simp only: c)
  show ?thesis
    by (intro conjI)
      (fact example_first_call fresh_world_fields(2) o
        reachable_call_raises(2) [OF r example_call_valid] c')+
qed

section \<open>The tile loops over a run of the process\<close>

text \<open>
  In a state of a process a valid call ends at the store on line 103, in the state that
  lines 91 to 100 leave: the loops of lines 115 to 154 are not run. The image array of
  line 100 is the last of the object arrays then, with \<^verbatim>\<open>None\<close> in every cell.
\<close>

lemma reachable_valid_call:
  assumes "reachable w" and "valid_input a"
  shows "draw_matrix a w
         = (Inl TypeError,
            snd (np_empty (nat (the (grid_value (grid_rows a)))) (nat (the (grid_value (grid_cols a))))
                  (snd (plt_subplots (nat (the (grid_value (grid_rows a))))
                          (nat (the (grid_value (grid_cols a)))) (figsize a) w))))"
proof -
  have "\<not> cached_and_open w (call_key a)"
    using reachable_cache_empty [OF assms(1)] by (simp add: cached_and_open_def)
  then show ?thesis by (rule draw_matrix_store_raises [OF assms(2)])
qed

lemma failed_creation_arrays:
  fixes w :: "'a world"
  shows "object_arrays (snd (np_empty n k (snd (plt_subplots n k fs w))))
         = object_arrays w @ [replicate n (replicate k None)]"
  by (simp add: np_empty_def plt_subplots_def Let_def)

lemma failed_creation_cell:
  fixes w :: "'a world"
  assumes "i < n" and "j < k"
  shows "cell_ref (snd (np_empty n k (snd (plt_subplots n k fs w)))) (length (object_arrays w)) i j
         = None"
  using assms by (simp add: cell_ref_def failed_creation_arrays)

lemma example_color_call_valid: "valid_input example_color_call"
  by (simp add: valid_input_def example_color_call_def example_call_def example_matrix_def
      default_args_def grid_value_def ndim_def)

lemma dark_call_valid: "valid_input dark_call"
  by (simp add: valid_input_def dark_call_def dark_matrix_def default_args_def grid_value_def
      ndim_def)

text \<open>
  C1, on the states of a process. A valid call, whose grid dimensions divide the matrix
  dimensions, raises \<^verbatim>\<open>TypeError\<close> at the store on line 103, before the slices of lines
  125 and 145 are taken: when the call ends no image exists, and the image array that the
  call made for its \<open>grid_rows\<close> by \<open>grid_cols\<close> tiles has \<^verbatim>\<open>None\<close> in every cell. The call
  has not put any tile of the matrix at any grid position.
\<close>

theorem valid_call_places_no_tile:
  fixes w :: "'a::{zero,one,linorder} world"
  assumes "reachable w" and "valid_input a"
  shows "fst (draw_matrix a w) = Inl TypeError
    \<and> images (snd (draw_matrix a w)) = []
    \<and> object_arrays (snd (draw_matrix a w))
        = object_arrays w
          @ [replicate (nat (the (grid_value (grid_rows a))))
               (replicate (nat (the (grid_value (grid_cols a)))) None)]"
  using reachable_no_image [OF assms(1)]
  by (simp add: reachable_valid_call [OF assms] failed_creation_state(2) failed_creation_arrays)

theorem valid_call_places_no_tile_witness:
  "reachable (initial_world :: int world)
   \<and> valid_input example_call
   \<and> fst (draw_matrix example_call initial_world) = Inl TypeError
   \<and> images (snd (draw_matrix example_call initial_world)) = []
   \<and> object_arrays (snd (draw_matrix example_call initial_world))
       = [[[None, None, None], [None, None, None]]]"
proof -
  have r: "reachable (initial_world :: int world)" by (rule reachable.start)
  have g: "replicate (nat (the (grid_value (grid_rows example_call))))
             (replicate (nat (the (grid_value (grid_cols example_call)))) (None :: ref option))
           = [[None, None, None], [None, None, None]]"
    by (simp add: example_call_grid numeral_2_eq_2 numeral_3_eq_3)
  have o: "object_arrays (initial_world :: int world) = []" by (simp add: initial_world_def)
  show ?thesis
    using r example_call_valid valid_call_places_no_tile [OF r example_call_valid]
    by (simp add: g o)
qed

text \<open>
  C3, on the states of a process. A valid call in mode binary raises \<^verbatim>\<open>TypeError\<close> at
  the store on line 103, before line 115: when the call ends no image exists, and no pixel
  of any cell of the image array of the call has a colour, dark or light.
\<close>

theorem binary_call_colours_no_pixel:
  fixes w :: "'a::{zero,one,linorder} world"
  assumes "reachable w" and "valid_input a" and "mode a = ''binary''"
  shows "fst (draw_matrix a w) = Inl TypeError
    \<and> images (snd (draw_matrix a w)) = []
    \<and> (\<forall>i<nat (the (grid_value (grid_rows a))). \<forall>j<nat (the (grid_value (grid_cols a))).
          \<forall>r c. pixel (snd (draw_matrix a w)) (length (object_arrays w)) i j r c = None)"
  using reachable_no_image [OF assms(1)]
  by (simp add: reachable_valid_call [OF assms(1,2)] failed_creation_state(2) pixel_def
      failed_creation_cell)

theorem binary_call_colours_no_pixel_witness:
  "reachable (initial_world :: int world)
   \<and> valid_input dark_call
   \<and> mode dark_call = ''binary''
   \<and> fst (draw_matrix dark_call initial_world) = Inl TypeError
   \<and> images (snd (draw_matrix dark_call initial_world)) = []
   \<and> pixel (snd (draw_matrix dark_call initial_world)) 0 0 0 0 0 = None
   \<and> pixel (snd (draw_matrix dark_call initial_world)) 0 0 0 1 1 = None"
proof -
  have r: "reachable (initial_world :: int world)" by (rule reachable.start)
  have m: "mode dark_call = ''binary''" by (simp add: dark_call_def default_args_def)
  have g: "nat (the (grid_value (grid_rows dark_call))) = 1"
    "nat (the (grid_value (grid_cols dark_call))) = 1"
    by (simp_all add: dark_call_def default_args_def grid_value_def)
  have o: "length (object_arrays (initial_world :: int world)) = 0"
    by (simp add: initial_world_def)
  show ?thesis
    using r dark_call_valid m binary_call_colours_no_pixel [OF r dark_call_valid m]
    by (simp add: g o)
qed

text \<open>
  C4, on the states of a process. A valid call in mode color raises \<^verbatim>\<open>TypeError\<close> at
  the store on line 103, before the range is computed on lines 138 and 139: when the call
  ends no image exists, and no cell of the image array of the call shows an image, with
  the range of the whole matrix or with any other range, with viridis or with any other
  palette.
\<close>

theorem color_call_shows_no_range:
  fixes w :: "'a::{zero,one,linorder} world"
  assumes "reachable w" and "valid_input a" and "mode a = ''color''"
  shows "fst (draw_matrix a w) = Inl TypeError
    \<and> images (snd (draw_matrix a w)) = []
    \<and> (\<forall>i<nat (the (grid_value (grid_rows a))). \<forall>j<nat (the (grid_value (grid_cols a))).
          \<forall>d cm clim.
            \<not> cell_shows (snd (draw_matrix a w)) (length (object_arrays w)) i j d cm clim)"
  using reachable_no_image [OF assms(1)]
  by (simp add: reachable_valid_call [OF assms(1,2)] failed_creation_state(2) cell_shows_def
      failed_creation_cell)

theorem color_call_shows_no_range_witness:
  "reachable (initial_world :: int world)
   \<and> valid_input example_color_call
   \<and> mode example_color_call = ''color''
   \<and> fst (draw_matrix example_color_call initial_world) = Inl TypeError
   \<and> images (snd (draw_matrix example_color_call initial_world)) = []
   \<and> \<not> cell_shows (snd (draw_matrix example_color_call initial_world)) 0 1 2
         (NumTile (Ndarray [2, 2] [[-16, 17], [0, 23]])) (NamedColormap ''viridis'') (-20, 23)"
proof -
  have r: "reachable (initial_world :: int world)" by (rule reachable.start)
  have m: "mode example_color_call = ''color''" by (simp add: example_color_call_def)
  have g: "nat (the (grid_value (grid_rows example_color_call))) = 2"
    "nat (the (grid_value (grid_cols example_color_call))) = 3"
    by (simp_all add: example_color_call_def example_call_def default_args_def grid_value_def)
  have o: "length (object_arrays (initial_world :: int world)) = 0"
    by (simp add: initial_world_def)
  show ?thesis
    using r example_color_call_valid m
      color_call_shows_no_range [OF r example_color_call_valid m]
    by (simp add: g o)
qed

section \<open>The heading\<close>


text \<open>The title is a component of the key: calls with different titles have different keys.\<close>

lemma call_key_title: "title b \<noteq> title a \<Longrightarrow> call_key b \<noteq> call_key a"
  by (simp add: call_key_def figure_key_def)

lemma titled_call_valid: "valid_input titled_call"
  by (simp add: valid_input_def titled_call_def unit_matrix_def default_args_def grid_value_def
      ndim_def)

lemma untitled_call_valid: "valid_input untitled_call"
  by (simp add: valid_input_def untitled_call_def unit_matrix_def default_args_def
      grid_value_def ndim_def)

text \<open>
  C8, evaluated on a call with the title A and a later call without title in a new
  process. The first call opens figure 1 and raises \<^verbatim>\<open>TypeError\<close> at the store on line
  103, before line 157: figure 1 has no heading, the title A has not been set. The second
  call finds nothing in the cache, opens figure 2 and raises at the store as well: it
  sets no heading to the empty string, and it has not rendered. The keys of the two calls
  differ in the title.
\<close>

theorem titled_then_untitled_call_raise:
  "fst (draw_matrix titled_call initial_world) = Inl TypeError
   \<and> figures (snd (draw_matrix titled_call initial_world))
       = [\<lparr>number = 1, fig_size = (6, 6), suptitle = None\<rparr>]
   \<and> figure_cache (snd (draw_matrix titled_call initial_world)) (call_key titled_call) = None
   \<and> figure_cache (snd (draw_matrix titled_call initial_world)) (call_key untitled_call) = None
   \<and> fst (draw_matrix untitled_call (snd (draw_matrix titled_call initial_world)))
       = Inl TypeError
   \<and> figures (snd (draw_matrix untitled_call (snd (draw_matrix titled_call initial_world))))
       = [\<lparr>number = 1, fig_size = (6, 6), suptitle = None\<rparr>,
          \<lparr>number = 2, fig_size = (6, 6), suptitle = None\<rparr>]
   \<and> images (snd (draw_matrix untitled_call (snd (draw_matrix titled_call initial_world)))) = []
   \<and> call_key untitled_call \<noteq> call_key titled_call"
proof -
  let ?w1 = "snd (draw_matrix titled_call initial_world)"
  let ?w2 = "snd (draw_matrix untitled_call ?w1)"
  have r0: "reachable (initial_world :: int world)" by (rule reachable.start)
  have r1: "reachable ?w1" by (rule reachable.call [OF r0])
  have r2: "reachable ?w2" by (rule reachable.call [OF r1])
  have g: "nat (the (grid_value (grid_rows titled_call))) = 1"
    "nat (the (grid_value (grid_cols titled_call))) = 1" "figsize titled_call = (6, 6)"
    "nat (the (grid_value (grid_rows untitled_call))) = 1"
    "nat (the (grid_value (grid_cols untitled_call))) = 1" "figsize untitled_call = (6, 6)"
    by (simp_all add: titled_call_def untitled_call_def default_args_def grid_value_def)
  have e1: "fst (draw_matrix titled_call initial_world) = Inl TypeError"
    by (rule reachable_call_raises(2) [OF r0 titled_call_valid])
  have e2: "fst (draw_matrix untitled_call ?w1) = Inl TypeError"
    by (rule reachable_call_raises(2) [OF r1 untitled_call_valid])
  have s0: "open_fignums (initial_world :: int world) = []"
    "figures (initial_world :: int world) = []"
    by (simp_all add: initial_world_def)
  have f1: "figures ?w1 = [\<lparr>number = 1, fig_size = (6, 6), suptitle = None\<rparr>]"
    and o1: "open_fignums ?w1 = [1]"
    by (simp_all add: reachable_valid_call [OF r0 titled_call_valid] g failed_creation_state s0)
  have f2: "figures ?w2 = [\<lparr>number = 1, fig_size = (6, 6), suptitle = None\<rparr>,
          \<lparr>number = 2, fig_size = (6, 6), suptitle = None\<rparr>]"
    by (simp add: reachable_valid_call [OF r1 untitled_call_valid] g failed_creation_state f1 o1)
  have c1: "figure_cache ?w1 (call_key titled_call) = None"
    "figure_cache ?w1 (call_key untitled_call) = None"
    by (simp_all only: reachable_cache_empty [OF r1])
  have i2: "images ?w2 = []" by (rule reachable_no_image [OF r2])
  have k: "call_key untitled_call \<noteq> call_key titled_call"
    by (rule call_key_title) (simp add: titled_call_def untitled_call_def default_args_def)
  show ?thesis
    by (intro conjI) (fact e1 f1 c1 e2 f2 i2 k)+
qed

section \<open>The empty title\<close>









end
